theory Spec2Isabelle
  imports Main "HOL-Library.Word"
begin

section \<open>Values and primitives of the virtual machine\<close>

text \<open>
  The contract of \<^verbatim>\<open>timelock_contracts.py\<close> is a PyTeal program: every Python
  function decorated with \<^verbatim>\<open>@router.method\<close> builds one expression that the
  Algorand virtual machine (AVM) evaluates against the application's global state, the
  callers' local states and the application's boxes. The embedding gives each method as a
  function from the call's context and the state before the call to either an error or the
  state after the call with the inner transactions it submitted.

  An AVM value is an unsigned 64-bit integer or a byte string. Integers are \<open>64 word\<close>;
  byte strings are \<open>string\<close> (a list of 8-bit characters). A state key that was
  never written reads as the integer 0.
\<close>

type_synonym bytes = string
type_synonym uint64 = "64 word"
type_synonym address = bytes

text \<open>
  The program has one way to fail: the evaluation stops and the ledger discards every
  effect of the transaction group. The constructors below label the place where it stops:
  \<open>Panic\<close> is a runtime error of an opcode (arithmetic overflow, operands of
  different types, local state of an account that has not opted in, \<^verbatim>\<open>box_put\<close> on a
  box of another size, a public key that is not 32 bytes long), \<open>Rejected\<close> is the
  router finding no handler, and every other constructor labels \<^verbatim>\<open>Assert\<close>
  statements of the source:
  \<^item> \<open>InvalidSchedule\<close>: \<^verbatim>\<open>create\<close>, line 196;
  \<^item> \<open>PhaseViolation\<close>: the comparisons of \<^verbatim>\<open>Global.round()\<close> and the tests
    \<^verbatim>\<open>SETTLED == 1\<close> (lines 226, 292, 293, 396, 443, 445, 505, 506, 550, 591);
  \<^item> \<open>BadPayment\<close>: the checks of the grouped transaction (lines 230-233, 448-452);
  \<^item> \<open>AlreadyCommitted\<close>: line 234; \<open>BadAttestation\<close>: lines 298 and 314;
  \<^item> \<open>UnknownCommitment\<close>: line 318; \<open>CommitmentMismatch\<close>: line 322;
  \<^item> \<open>AlreadyRevealed\<close>: line 333; \<open>BidBelowMinimum\<close>: line 334;
  \<^item> \<open>AlreadySettled\<close>: line 399; \<open>NotWinner\<close>: line 444;
  \<^item> \<open>PriceMismatch\<close>: line 470; \<open>NoFallbackBidder\<close>: line 510;
  \<^item> \<open>NotRevealed\<close>: line 551; \<open>WinnerCannotRefund\<close>: line 552;
  \<^item> \<open>AlreadyRefunded\<close>: line 553; \<open>NotSeller\<close>: lines 590, 599, 606.
\<close>

datatype error =
    Panic
  | Rejected
  | InvalidSchedule
  | PhaseViolation
  | BadPayment
  | AlreadyCommitted
  | BadAttestation
  | UnknownCommitment
  | CommitmentMismatch
  | AlreadyRevealed
  | BidBelowMinimum
  | AlreadySettled
  | NotWinner
  | PriceMismatch
  | NoFallbackBidder
  | NotRevealed
  | WinnerCannotRefund
  | AlreadyRefunded
  | NotSeller

definition and_then :: "error + 'a \<Rightarrow> ('a \<Rightarrow> error + 'b) \<Rightarrow> error + 'b" where
  "and_then r k = (case r of Inl x \<Rightarrow> Inl x | Inr v \<Rightarrow> k v)"

text \<open>\<^verbatim>\<open>Assert(c)\<close> followed by the rest of a \<^verbatim>\<open>Seq\<close>.\<close>

definition require :: "bool \<Rightarrow> error \<Rightarrow> (error + 'a) \<Rightarrow> error + 'a" where
  "require c x k = (if c then k else Inl x)"

text \<open>The opcodes \<^verbatim>\<open>+\<close> and \<^verbatim>\<open>*\<close> fail on overflow, \<^verbatim>\<open>/\<close> fails on a zero divisor.\<close>

definition add_u64 :: "uint64 \<Rightarrow> uint64 \<Rightarrow> error + uint64" where
  "add_u64 a b = (if unat a + unat b < 2 ^ 64 then Inr (a + b) else Inl Panic)"

definition mul_u64 :: "uint64 \<Rightarrow> uint64 \<Rightarrow> error + uint64" where
  "mul_u64 a b = (if unat a * unat b < 2 ^ 64 then Inr (a * b) else Inl Panic)"

definition div_u64 :: "uint64 \<Rightarrow> uint64 \<Rightarrow> error + uint64" where
  "div_u64 a b = (if b = 0 then Inl Panic else Inr (a div b))"

text \<open>
  A key that holds a byte string is \<open>Some\<close> of it; \<open>None\<close> is a key that reads as
  the integer 0 (never written, or written with an integer). Using such a value where the
  opcode needs bytes (\<^verbatim>\<open>concat\<close>, \<^verbatim>\<open>==\<close> against bytes, a transaction field) fails.
\<close>

definition as_bytes :: "bytes option \<Rightarrow> error + bytes" where
  "as_bytes v = (case v of None \<Rightarrow> Inl Panic | Some b \<Rightarrow> Inr b)"

text \<open>\<^verbatim>\<open>Itob\<close>: the 8 bytes of the integer, most significant first.\<close>

definition Itob :: "uint64 \<Rightarrow> bytes" where
  "Itob w = map (\<lambda>i. char_of (unat w div 256 ^ i)) [7, 6, 5, 4, 3, 2, 1, 0]"

text \<open>
  The two cryptographic opcodes are parameters of the model: every theorem holds for any
  hash function and any signature predicate. \<^verbatim>\<open>ed25519verify_bare\<close> fails (rather
  than returning false) on a public key that is not 32 bytes or a signature that is not
  64 bytes long.
\<close>

record avm =
  Sha256 :: "bytes \<Rightarrow> bytes"
  Ed25519Verify :: "bytes \<Rightarrow> bytes \<Rightarrow> bytes \<Rightarrow> bool"

definition Ed25519Verify_Bare :: "avm \<Rightarrow> bytes \<Rightarrow> bytes \<Rightarrow> bytes \<Rightarrow> error + bool" where
  "Ed25519Verify_Bare A msg sig pk =
     (if length sig = 64 \<and> length pk = 32 then Inr (Ed25519Verify A msg sig pk) else Inl Panic)"

section \<open>State\<close>

text \<open>
  The global state has the seventeen keys of lines 88-104 and the local state of an
  account the eight keys of lines 107-114. Every \<^verbatim>\<open>globalPut\<close> and \<^verbatim>\<open>localPut\<close>
  of the source writes a given key with one type only, so each key is a field of that type.
\<close>

record global_state =
  SELLER :: "bytes option"
  ASA_QUOTE :: uint64
  RESERVE :: uint64
  MIN_BID :: uint64
  BOND :: uint64
  SECOND_PRICE :: uint64
  COMMIT_END :: uint64
  UNLOCK_SLACK :: uint64
  PAY_WINDOW :: uint64
  ORACLE_PK :: "bytes option"
  P_HASH :: "bytes option"
  WINNER :: "bytes option"
  WIN_BID :: uint64
  SECOND_BID :: uint64
  SECOND_WINNER :: "bytes option"
  SETTLED :: uint64
  SETTLE_ROUND :: uint64

record local_state =
  COMMIT :: "bytes option"
  C_CID :: "bytes option"
  ANON_KEY :: "bytes option"
  BONDED :: uint64
  REVEALED :: uint64
  BID :: uint64
  REFUNDED :: uint64
  REMAINING_BOND :: uint64

text \<open>
  \<open>locals s a = None\<close>: the account \<open>a\<close> has not opted in to the application.
  The boxes hold the commitment index (box \<open>h\<close> holds the bidder's address) and the
  allowlist (box \<^verbatim>\<open>"KYC:" + address\<close>).
\<close>

record state =
  globals :: global_state
  locals :: "address \<rightharpoonup> local_state"
  boxes :: "bytes \<rightharpoonup> bytes"

definition fresh_globals :: global_state where
  "fresh_globals = \<lparr>SELLER = None, ASA_QUOTE = 0, RESERVE = 0, MIN_BID = 0, BOND = 0,
     SECOND_PRICE = 0, COMMIT_END = 0, UNLOCK_SLACK = 0, PAY_WINDOW = 0, ORACLE_PK = None,
     P_HASH = None, WINNER = None, WIN_BID = 0, SECOND_BID = 0, SECOND_WINNER = None,
     SETTLED = 0, SETTLE_ROUND = 0\<rparr>"

definition fresh_local :: local_state where
  "fresh_local = \<lparr>COMMIT = None, C_CID = None, ANON_KEY = None, BONDED = 0, REVEALED = 0,
     BID = 0, REFUNDED = 0, REMAINING_BOND = 0\<rparr>"

text \<open>The application right after its deployment (step 5 of \<^verbatim>\<open>deploy.py\<close>).\<close>

definition deployed :: state where
  "deployed = \<lparr>globals = fresh_globals, locals = Map.empty, boxes = Map.empty\<rparr>"

text \<open>\<^verbatim>\<open>App.localGet\<close> and \<^verbatim>\<open>App.localPut\<close> fail on an account that has not opted in.\<close>

definition local_of :: "state \<Rightarrow> address \<Rightarrow> error + local_state" where
  "local_of s a = (case locals s a of None \<Rightarrow> Inl Panic | Some l \<Rightarrow> Inr l)"

definition local_put :: "state \<Rightarrow> address \<Rightarrow> local_state \<Rightarrow> state" where
  "local_put s a l = s\<lparr>locals := (locals s)(a \<mapsto> l)\<rparr>"

text \<open>
  \<^verbatim>\<open>App.box_put\<close> creates the box when it does not exist, replaces its contents when
  it exists with the same length, and fails when it exists with another length.
\<close>

definition box_put :: "(bytes \<rightharpoonup> bytes) \<Rightarrow> bytes \<Rightarrow> bytes \<Rightarrow> error + (bytes \<rightharpoonup> bytes)" where
  "box_put bx name v =
     (case bx name of
        None \<Rightarrow> Inr (bx(name \<mapsto> v))
      | Some old \<Rightarrow> if length old = length v then Inr (bx(name \<mapsto> v)) else Inl Panic)"

section \<open>Transactions\<close>

datatype txn_type = Payment | AssetTransfer | ApplicationCall | OtherType

text \<open>The fields of \<^verbatim>\<open>Gtxn[0]\<close> that the contract reads.\<close>

record gtxn =
  type_enum :: txn_type
  receiver :: address
  amount :: uint64
  xfer_asset :: uint64
  asset_receiver :: address
  asset_amount :: uint64

text \<open>
  What a call sees of its transaction and of the ledger. \<open>Txn_application_id\<close> is 0
  in the transaction that creates the application. \<open>Gtxn\<close> is the transaction group,
  the call itself included, so \<^verbatim>\<open>Global.group_size()\<close> is its length.
\<close>

record ctx =
  Txn_sender :: address
  Txn_application_id :: uint64
  Global_round :: uint64
  Global_current_application_id :: uint64
  Global_current_application_address :: address
  Gtxn :: "gtxn list"

text \<open>The inner transactions of the source: a payment and an asset transfer.\<close>

datatype inner_txn =
    InnerPayment address uint64
  | InnerAssetTransfer uint64 address uint64

type_synonym outcome = "error + state \<times> inner_txn list"

section \<open>The methods\<close>

subsection \<open>\<^verbatim>\<open>create\<close> (lines 143-198)\<close>

record create_args =
  arg_asa_quote :: uint64
  arg_reserve :: uint64
  arg_min_bid :: uint64
  arg_bond :: uint64
  arg_second_price :: "8 word"
  arg_commit_end :: uint64
  arg_unlock_slack :: uint64
  arg_pay_window :: uint64
  arg_oracle_pk :: bytes
  arg_p_hash :: bytes

text \<open>
  The seventeen \<^verbatim>\<open>globalPut\<close> come first and the only \<^verbatim>\<open>Assert\<close> last; a failed
  assertion discards the writes. Nothing reads the state before writing it.
\<close>

definition create :: "ctx \<Rightarrow> create_args \<Rightarrow> state \<Rightarrow> outcome" where
  "create e a s =
     (let s1 = s\<lparr>globals := \<lparr>
          SELLER = Some (Txn_sender e),
          ASA_QUOTE = arg_asa_quote a,
          RESERVE = arg_reserve a,
          MIN_BID = arg_min_bid a,
          BOND = arg_bond a,
          SECOND_PRICE = ucast (arg_second_price a),
          COMMIT_END = arg_commit_end a,
          UNLOCK_SLACK = arg_unlock_slack a,
          PAY_WINDOW = arg_pay_window a,
          ORACLE_PK = Some (arg_oracle_pk a),
          P_HASH = Some (arg_p_hash a),
          WINNER = Some [],
          WIN_BID = 0,
          SECOND_BID = 0,
          SECOND_WINNER = Some [],
          SETTLED = 0,
          SETTLE_ROUND = 0\<rparr>\<rparr>
      in require (arg_commit_end a > Global_round e) InvalidSchedule (Inr (s1, [])))"

subsection \<open>\<^verbatim>\<open>commit\<close> (lines 200-246)\<close>

definition commit :: "ctx \<Rightarrow> bytes \<Rightarrow> bytes \<Rightarrow> bytes \<Rightarrow> state \<Rightarrow> outcome" where
  "commit e h c_cid anon_key s =
     require (Global_round e < COMMIT_END (globals s)) PhaseViolation (
     require (length (Gtxn e) = 2) BadPayment (
     require (type_enum (Gtxn e ! 0) = Payment) BadPayment (
     require (receiver (Gtxn e ! 0) = Global_current_application_address e) BadPayment (
     require (amount (Gtxn e ! 0) = BOND (globals s)) BadPayment (
     and_then (local_of s (Txn_sender e)) (\<lambda>l.
     require (BONDED l = 0) AlreadyCommitted (
     and_then (box_put (boxes s) h (Txn_sender e)) (\<lambda>bx.
       Inr (s\<lparr>locals := (locals s)(Txn_sender e \<mapsto>
                 l\<lparr>COMMIT := Some h, C_CID := Some c_cid, ANON_KEY := Some anon_key,
                   BONDED := 1, REVEALED := 0, REFUNDED := 0, BID := 0,
                   REMAINING_BOND := BOND (globals s)\<rparr>),
               boxes := bx\<rparr>, [])))))))))"

subsection \<open>\<^verbatim>\<open>reveal_for\<close> (lines 248-381)\<close>

text \<open>The message the oracle signs (lines 301-311), given the end of the reveal window.\<close>

definition attestation_msg :: "ctx \<Rightarrow> bytes \<Rightarrow> bytes \<Rightarrow> uint64 \<Rightarrow> uint64 \<Rightarrow> bytes" where
  "attestation_msg e hy p_hash commit_end reveal_end =
     ''v:1'' @ Itob (Global_current_application_id e) @ hy @ Itob (Global_round e) @ p_hash
       @ Itob commit_end @ Itob reveal_end"

text \<open>The bytes that are hashed to check a commitment (lines 324-329).\<close>

definition commitment_preimage :: "ctx \<Rightarrow> uint64 \<Rightarrow> bytes \<Rightarrow> bytes \<Rightarrow> bytes" where
  "commitment_preimage e bid salt anon_key =
     Itob bid @ salt @ anon_key @ Itob (Global_current_application_id e)"

text \<open>The leaderboard update (lines 338-354).\<close>

definition update_leaderboard :: "address \<Rightarrow> uint64 \<Rightarrow> global_state \<Rightarrow> global_state" where
  "update_leaderboard bidder bid g =
     (if bid > WIN_BID g then
        g\<lparr>SECOND_BID := WIN_BID g, SECOND_WINNER := WINNER g, WIN_BID := bid,
          WINNER := Some bidder\<rparr>
      else if bid > SECOND_BID g then
        g\<lparr>SECOND_BID := bid, SECOND_WINNER := Some bidder\<rparr>
      else g)"

text \<open>
  The bounty (lines 356-379), on the bidder's record \<open>l\<close> after lines 335-336: the new
  record and the inner transactions.
\<close>

definition bounty_payout :: "ctx \<Rightarrow> address \<Rightarrow> local_state \<Rightarrow> error + local_state \<times> inner_txn list" where
  "bounty_payout e bidder l =
     (let bond_amount = REMAINING_BOND l in
      if Txn_sender e = bidder then Inr (l\<lparr>REMAINING_BOND := bond_amount\<rparr>, [])
      else
        and_then (mul_u64 bond_amount 70) (\<lambda>m70.
        and_then (div_u64 m70 100) (\<lambda>revealer_amount.
        and_then (mul_u64 bond_amount 30) (\<lambda>m30.
        and_then (div_u64 m30 100) (\<lambda>bidder_amount.
          Inr (l\<lparr>REMAINING_BOND := bidder_amount\<rparr>,
               [InnerPayment (Txn_sender e) revealer_amount]))))))"

definition reveal_for :: "avm \<Rightarrow> ctx \<Rightarrow> bytes \<Rightarrow> uint64 \<Rightarrow> bytes \<Rightarrow> bytes \<Rightarrow> bytes \<Rightarrow> state \<Rightarrow> outcome" where
  "reveal_for A e commit_id bid salt hy att s =
     require (COMMIT_END (globals s) \<le> Global_round e) PhaseViolation (
     and_then (add_u64 (COMMIT_END (globals s)) (UNLOCK_SLACK (globals s))) (\<lambda>reveal_end.
     require (Global_round e < reveal_end) PhaseViolation (
     require (length att = 64) BadAttestation (
     and_then (as_bytes (P_HASH (globals s))) (\<lambda>p_hash.
     and_then (as_bytes (ORACLE_PK (globals s))) (\<lambda>oracle_pk.
     and_then (Ed25519Verify_Bare A
                 (attestation_msg e hy p_hash (COMMIT_END (globals s)) reveal_end) att oracle_pk)
       (\<lambda>valid.
     require valid BadAttestation (
     case boxes s commit_id of
       None \<Rightarrow> Inl UnknownCommitment
     | Some bidder \<Rightarrow>
         and_then (local_of s bidder) (\<lambda>l.
         and_then (as_bytes (ANON_KEY l)) (\<lambda>anon_key.
         and_then (as_bytes (COMMIT l)) (\<lambda>stored.
         require (Sha256 A (commitment_preimage e bid salt anon_key) = stored)
           CommitmentMismatch (
         require (REVEALED l = 0) AlreadyRevealed (
         require (bid \<ge> MIN_BID (globals s)) BidBelowMinimum (
         and_then (bounty_payout e bidder (l\<lparr>REVEALED := 1, BID := bid\<rparr>)) (\<lambda>(l', pays).
           Inr (s\<lparr>globals := update_leaderboard bidder bid (globals s),
                   locals := (locals s)(bidder \<mapsto> l')\<rparr>, pays))))))))))))))))"

subsection \<open>\<^verbatim>\<open>settle\<close> (lines 383-419)\<close>

text \<open>
  \<^verbatim>\<open>And\<close> evaluates both operands; the first compares \<^verbatim>\<open>WINNER\<close> with a byte string
  and fails when the key holds an integer. Both branches of the \<^verbatim>\<open>If\<close> write the same.
\<close>

definition settle :: "ctx \<Rightarrow> state \<Rightarrow> outcome" where
  "settle e s =
     and_then (add_u64 (COMMIT_END (globals s)) (UNLOCK_SLACK (globals s))) (\<lambda>reveal_end.
     require (Global_round e \<ge> reveal_end) PhaseViolation (
     require (SETTLED (globals s) = 0) AlreadySettled (
     and_then (as_bytes (WINNER (globals s))) (\<lambda>winner.
       if winner \<noteq> [] \<and> WIN_BID (globals s) \<ge> RESERVE (globals s) then
         Inr (s\<lparr>globals := (globals s)\<lparr>SETTLED := 1, SETTLE_ROUND := Global_round e\<rparr>\<rparr>, [])
       else
         Inr (s\<lparr>globals := (globals s)\<lparr>SETTLED := 1, SETTLE_ROUND := Global_round e\<rparr>\<rparr>, [])))))"

subsection \<open>\<^verbatim>\<open>finalize_win\<close> (lines 421-500)\<close>

text \<open>The price computed by lines 454-469.\<close>

definition expected_price :: "global_state \<Rightarrow> uint64" where
  "expected_price g =
     (if SECOND_PRICE g = 1 then
        (if SECOND_BID g > RESERVE g then SECOND_BID g else RESERVE g)
      else
        (if WIN_BID g > RESERVE g then WIN_BID g else RESERVE g))"

text \<open>
  The refund of lines 485-498, 555-568 and the slash of lines 512-525: pay the account's
  remaining bond to \<open>to\<close> and zero it, when it is positive.
\<close>

definition pay_remaining_bond :: "state \<Rightarrow> address \<Rightarrow> address \<Rightarrow> error + state \<times> inner_txn list" where
  "pay_remaining_bond s acct to =
     and_then (local_of s acct) (\<lambda>l.
       if REMAINING_BOND l > 0 then
         Inr (local_put s acct (l\<lparr>REMAINING_BOND := 0\<rparr>), [InnerPayment to (REMAINING_BOND l)])
       else Inr (s, []))"

definition finalize_win :: "ctx \<Rightarrow> uint64 \<Rightarrow> state \<Rightarrow> outcome" where
  "finalize_win e price s =
     require (SETTLED (globals s) = 1) PhaseViolation (
     and_then (as_bytes (WINNER (globals s))) (\<lambda>winner.
     require (Txn_sender e = winner) NotWinner (
     and_then (add_u64 (SETTLE_ROUND (globals s)) (PAY_WINDOW (globals s))) (\<lambda>deadline.
     require (Global_round e \<le> deadline) PhaseViolation (
     require (length (Gtxn e) = 2) BadPayment (
     require (type_enum (Gtxn e ! 0) = AssetTransfer) BadPayment (
     require (xfer_asset (Gtxn e ! 0) = ASA_QUOTE (globals s)) BadPayment (
     require (asset_receiver (Gtxn e ! 0) = Global_current_application_address e) BadPayment (
     require (asset_amount (Gtxn e ! 0) = price) BadPayment (
     require (price = expected_price (globals s)) PriceMismatch (
     and_then (as_bytes (SELLER (globals s))) (\<lambda>seller.
     and_then (pay_remaining_bond s (Txn_sender e) (Txn_sender e)) (\<lambda>(s', pays).
       Inr (s', InnerAssetTransfer (ASA_QUOTE (globals s)) seller price # pays))))))))))))))"

subsection \<open>\<^verbatim>\<open>promote_next\<close> (lines 502-535)\<close>

text \<open>
  An account argument of \<^verbatim>\<open>App.localGet\<close> that is an integer is an index into the
  transaction's accounts, and index 0 is the sender.
\<close>

definition account_ref :: "ctx \<Rightarrow> bytes option \<Rightarrow> address" where
  "account_ref e v = (case v of None \<Rightarrow> Txn_sender e | Some a \<Rightarrow> a)"

definition promote_next :: "ctx \<Rightarrow> state \<Rightarrow> outcome" where
  "promote_next e s =
     require (SETTLED (globals s) = 1) PhaseViolation (
     and_then (add_u64 (SETTLE_ROUND (globals s)) (PAY_WINDOW (globals s))) (\<lambda>deadline.
     require (Global_round e > deadline) PhaseViolation (
     and_then (as_bytes (SECOND_WINNER (globals s))) (\<lambda>second_winner.
     require (second_winner \<noteq> []) NoFallbackBidder (
     and_then (local_of s (account_ref e (WINNER (globals s)))) (\<lambda>l.
     and_then (if REMAINING_BOND l > 0 then as_bytes (SELLER (globals s)) else Inr []) (\<lambda>seller.
     and_then (pay_remaining_bond s (account_ref e (WINNER (globals s))) seller) (\<lambda>(s', pays).
       Inr (s'\<lparr>globals := (globals s')\<lparr>
                 WINNER := SECOND_WINNER (globals s'),
                 WIN_BID := SECOND_BID (globals s'),
                 SECOND_WINNER := Some [],
                 SECOND_BID := 0,
                 SETTLE_ROUND := Global_round e\<rparr>\<rparr>, pays)))))))))"

subsection \<open>\<^verbatim>\<open>claim_refund\<close> (lines 537-571)\<close>

definition claim_refund :: "ctx \<Rightarrow> state \<Rightarrow> outcome" where
  "claim_refund e s =
     require (SETTLED (globals s) = 1) PhaseViolation (
     and_then (local_of s (Txn_sender e)) (\<lambda>l.
     require (REVEALED l = 1) NotRevealed (
     and_then (as_bytes (WINNER (globals s))) (\<lambda>winner.
     require (Txn_sender e \<noteq> winner) WinnerCannotRefund (
     require (REFUNDED l = 0) AlreadyRefunded (
     and_then (pay_remaining_bond s (Txn_sender e) (Txn_sender e)) (\<lambda>(s', pays).
     and_then (local_of s' (Txn_sender e)) (\<lambda>l'.
       Inr (local_put s' (Txn_sender e) (l'\<lparr>REFUNDED := 1\<rparr>), pays)))))))))"

subsection \<open>\<^verbatim>\<open>set_kyc\<close>, \<^verbatim>\<open>update\<close>, \<^verbatim>\<open>delete\<close> (lines 573-608)\<close>

definition set_kyc :: "ctx \<Rightarrow> address \<Rightarrow> 8 word \<Rightarrow> state \<Rightarrow> outcome" where
  "set_kyc e addr v s =
     and_then (as_bytes (SELLER (globals s))) (\<lambda>seller.
     require (Txn_sender e = seller) NotSeller (
     require (Global_round e < COMMIT_END (globals s)) PhaseViolation (
     and_then (box_put (boxes s) (''KYC:'' @ addr) (Itob (ucast v))) (\<lambda>bx.
       Inr (s\<lparr>boxes := bx\<rparr>, [])))))"

definition update :: "ctx \<Rightarrow> state \<Rightarrow> outcome" where
  "update e s =
     and_then (as_bytes (SELLER (globals s))) (\<lambda>seller.
     require (Txn_sender e = seller) NotSeller (Inr (s, [])))"

definition delete :: "ctx \<Rightarrow> state \<Rightarrow> outcome" where
  "delete e s =
     and_then (as_bytes (SELLER (globals s))) (\<lambda>seller.
     require (Txn_sender e = seller) NotSeller (Inr (s, [])))"

section \<open>The router and the ledger\<close>

text \<open>
  \<^verbatim>\<open>build_router\<close> (lines 131-141) registers five bare-call actions and ten methods.
  A call without application arguments is a bare call and is dispatched on its
  on-completion action; a call with arguments is dispatched on the method selector.
  \<^verbatim>\<open>OnCompleteAction.create_only\<close> admits only the transaction that creates the
  application, \<^verbatim>\<open>call_only\<close> only calls of the existing application, and
  \<^verbatim>\<open>never\<close> nothing. \<^verbatim>\<open>@router.method\<close> without arguments registers a method for
  calls with the on-completion action \<^verbatim>\<open>NoOp\<close> only.
\<close>

datatype on_complete = NoOp | OptIn | CloseOut | ClearState | UpdateApplication | DeleteApplication

datatype call_config = NEVER | CALL | CREATE

definition admits :: "call_config \<Rightarrow> ctx \<Rightarrow> bool" where
  "admits c e =
     (case c of NEVER \<Rightarrow> False
      | CALL \<Rightarrow> Txn_application_id e \<noteq> 0
      | CREATE \<Rightarrow> Txn_application_id e = 0)"

text \<open>Lines 133-140; the action of every admitted bare call is \<^verbatim>\<open>Approve()\<close>.\<close>

definition bare_call_actions :: "on_complete \<Rightarrow> call_config" where
  "bare_call_actions oc =
     (case oc of
        NoOp \<Rightarrow> CREATE
      | UpdateApplication \<Rightarrow> CALL
      | DeleteApplication \<Rightarrow> CALL
      | CloseOut \<Rightarrow> CALL
      | OptIn \<Rightarrow> CALL
      | ClearState \<Rightarrow> NEVER)"

definition method_config :: "on_complete \<Rightarrow> call_config" where
  "method_config oc = (if oc = NoOp then CALL else NEVER)"

datatype method_call =
    Create create_args
  | Commit bytes bytes bytes
  | Reveal_for bytes uint64 bytes bytes bytes
  | Settle
  | Finalize_win uint64
  | Promote_next
  | Claim_refund
  | Set_kyc address "8 word"
  | Update
  | Delete

fun method_body :: "avm \<Rightarrow> ctx \<Rightarrow> method_call \<Rightarrow> state \<Rightarrow> outcome" where
  "method_body A e (Create a) s = create e a s"
| "method_body A e (Commit h c_cid anon_key) s = commit e h c_cid anon_key s"
| "method_body A e (Reveal_for commit_id bid salt hy att) s =
     reveal_for A e commit_id bid salt hy att s"
| "method_body A e Settle s = settle e s"
| "method_body A e (Finalize_win price) s = finalize_win e price s"
| "method_body A e Promote_next s = promote_next e s"
| "method_body A e Claim_refund s = claim_refund e s"
| "method_body A e (Set_kyc addr v) s = set_kyc e addr v s"
| "method_body A e Update s = update e s"
| "method_body A e Delete s = delete e s"

text \<open>The approval program: \<open>None\<close> is a bare call, \<open>Some m\<close> a method call.\<close>

definition approval_program :: "avm \<Rightarrow> ctx \<Rightarrow> on_complete \<Rightarrow> method_call option \<Rightarrow> state \<Rightarrow> outcome" where
  "approval_program A e oc m s =
     (case m of
        None \<Rightarrow> if admits (bare_call_actions oc) e then Inr (s, []) else Inl Rejected
      | Some mc \<Rightarrow> if admits (method_config oc) e then method_body A e mc s else Inl Rejected)"

text \<open>
  What the ledger does with one application call: \<open>None\<close> when the transaction fails
  and nothing changes. An opt-in allocates the sender's local state before the program
  runs and fails when the sender has opted in already; a close-out removes it after the
  program approved; a clear-state transaction removes it whatever the clear program does.

  The ledger also refuses transactions for reasons that are not in the program: fees, the
  minimum balance of the application account, the opcode budget, references to accounts
  and boxes, the sizes of stored values. Such a transaction changes nothing, like every
  failed one; the model describes the program and leaves these refusals out, and the
  arguments of a method are the decoded values of well-formed ABI arguments.
\<close>

type_synonym app_txn = "ctx \<times> on_complete \<times> method_call option"

definition ledger_step :: "avm \<Rightarrow> app_txn \<Rightarrow> state \<Rightarrow> (state \<times> inner_txn list) option" where
  "ledger_step A t s =
     (case t of (e, oc, m) \<Rightarrow>
       (case oc of
          ClearState \<Rightarrow>
            (if locals s (Txn_sender e) = None then None
             else Some (s\<lparr>locals := (locals s)(Txn_sender e := None)\<rparr>, []))
        | OptIn \<Rightarrow>
            (if locals s (Txn_sender e) \<noteq> None then None
             else (case approval_program A e oc m
                          (s\<lparr>locals := (locals s)(Txn_sender e \<mapsto> fresh_local)\<rparr>) of
                     Inl x \<Rightarrow> None | Inr r \<Rightarrow> Some r))
        | CloseOut \<Rightarrow>
            (if locals s (Txn_sender e) = None then None
             else (case approval_program A e oc m s of
                     Inl x \<Rightarrow> None
                   | Inr r \<Rightarrow> Some ((fst r)\<lparr>locals := (locals (fst r))(Txn_sender e := None)\<rparr>,
                                    snd r)))
        | NoOp \<Rightarrow> (case approval_program A e oc m s of Inl x \<Rightarrow> None | Inr r \<Rightarrow> Some r)
        | UpdateApplication \<Rightarrow>
            (case approval_program A e oc m s of Inl x \<Rightarrow> None | Inr r \<Rightarrow> Some r)
        | DeleteApplication \<Rightarrow>
            (case approval_program A e oc m s of Inl x \<Rightarrow> None | Inr r \<Rightarrow> Some r)))"

section \<open>Bond accounting and runs\<close>

text \<open>
  The payments made out of a bidder's bond are the third-party bounty of
  \<^verbatim>\<open>reveal_for\<close> (out of the bond of the bidder found in the commitment index), the
  refunds of \<^verbatim>\<open>finalize_win\<close> and \<^verbatim>\<open>claim_refund\<close> (out of the sender's bond) and the
  slash of \<^verbatim>\<open>promote_next\<close> (out of the winner's bond). The bond ledger is bookkeeping
  beside the program: for every account, the amount of the grouped payment of its last
  successful \<^verbatim>\<open>commit\<close>, and the sum of the payments made out of its bond since then.
\<close>

record bond_ledger =
  posted :: "address \<Rightarrow> nat"
  paid_out :: "address \<Rightarrow> nat"

definition no_bonds :: bond_ledger where
  "no_bonds = \<lparr>posted = (\<lambda>a. 0), paid_out = (\<lambda>a. 0)\<rparr>"

fun payments_total :: "inner_txn list \<Rightarrow> nat" where
  "payments_total [] = 0"
| "payments_total (InnerPayment to a # xs) = unat a + payments_total xs"
| "payments_total (InnerAssetTransfer asa to a # xs) = payments_total xs"

fun bond_source :: "ctx \<Rightarrow> method_call \<Rightarrow> state \<Rightarrow> address option" where
  "bond_source e (Reveal_for commit_id bid salt hy att) s = boxes s commit_id"
| "bond_source e (Finalize_win price) s = Some (Txn_sender e)"
| "bond_source e Promote_next s = Some (account_ref e (WINNER (globals s)))"
| "bond_source e Claim_refund s = Some (Txn_sender e)"
| "bond_source e m s = None"

text \<open>
  The ledger after a successful method call made in state \<open>s\<close> that submitted
  \<open>outs\<close>; a method runs only in a call with the on-completion action \<open>NoOp\<close>.
\<close>

fun record_method :: "ctx \<Rightarrow> method_call \<Rightarrow> state \<Rightarrow> inner_txn list \<Rightarrow> bond_ledger \<Rightarrow> bond_ledger" where
  "record_method e (Commit h c_cid anon_key) s outs L =
     L\<lparr>posted := (posted L)(Txn_sender e := unat (amount (Gtxn e ! 0))),
       paid_out := (paid_out L)(Txn_sender e := 0)\<rparr>"
| "record_method e mc s outs L =
     (case bond_source e mc s of
        None \<Rightarrow> L
      | Some b \<Rightarrow> L\<lparr>paid_out := (paid_out L)(b := paid_out L b + payments_total outs)\<rparr>)"

definition record_call :: "app_txn \<Rightarrow> state \<Rightarrow> inner_txn list \<Rightarrow> bond_ledger \<Rightarrow> bond_ledger" where
  "record_call t s outs L =
     (case t of (e, oc, m) \<Rightarrow>
       (case m of
          None \<Rightarrow> L
        | Some mc \<Rightarrow> if oc = NoOp then record_method e mc s outs L else L))"

text \<open>
  A run applies application calls one after the other from a state and a ledger. A failed
  transaction changes nothing. An approved update or deletion replaces or removes the
  program, so the run of this program ends there.
\<close>

fun run :: "avm \<Rightarrow> app_txn list \<Rightarrow> state \<times> bond_ledger \<Rightarrow> state \<times> bond_ledger" where
  "run A [] c = c"
| "run A (t # ts) c =
     (case ledger_step A t (fst c) of
        None \<Rightarrow> run A ts c
      | Some r \<Rightarrow>
          if fst (snd t) = UpdateApplication \<or> fst (snd t) = DeleteApplication then c
          else run A ts (fst r, record_call t (fst c) (snd r) (snd c)))"

text \<open>The states the program can be in: the results of the runs from the deployment.\<close>

definition reached :: "avm \<Rightarrow> app_txn list \<Rightarrow> state \<times> bond_ledger" where
  "reached A ts = run A ts (deployed, no_bonds)"

section \<open>Concrete parties and calls\<close>

text \<open>
  Concrete runs need an instance of the two cryptographic parameters. The instance below
  is a stand-in used only to evaluate examples: the hash returns its input and every
  signature verifies. No general theorem depends on it.
\<close>

definition example_avm :: avm where
  "example_avm = \<lparr>Sha256 = (\<lambda>m. m), Ed25519Verify = (\<lambda>msg sig pk. True)\<rparr>"

text \<open>Addresses and keys are 32 bytes long, a signature 64.\<close>

definition addr :: "char \<Rightarrow> address" where
  "addr c = replicate 32 c"

definition example_sig :: bytes where
  "example_sig = replicate 64 (CHR ''s'')"

definition call_ctx :: "address \<Rightarrow> uint64 \<Rightarrow> gtxn list \<Rightarrow> ctx" where
  "call_ctx who r g = \<lparr>Txn_sender = who, Txn_application_id = 7, Global_round = r,
     Global_current_application_id = 7, Global_current_application_address = addr (CHR ''E''),
     Gtxn = g\<rparr>"

definition app_call_txn :: gtxn where
  "app_call_txn = \<lparr>type_enum = ApplicationCall, receiver = [], amount = 0, xfer_asset = 0,
     asset_receiver = [], asset_amount = 0\<rparr>"

definition pay_txn :: "address \<Rightarrow> uint64 \<Rightarrow> gtxn" where
  "pay_txn to a = \<lparr>type_enum = Payment, receiver = to, amount = a, xfer_asset = 0,
     asset_receiver = [], asset_amount = 0\<rparr>"

definition axfer_txn :: "uint64 \<Rightarrow> address \<Rightarrow> uint64 \<Rightarrow> gtxn" where
  "axfer_txn asa to a = \<lparr>type_enum = AssetTransfer, receiver = [], amount = 0, xfer_asset = asa,
     asset_receiver = to, asset_amount = a\<rparr>"

text \<open>
  An auction with the given bond, reserve and pricing rule: bids of at least 1, commits
  before round 100, reveals in rounds 100 to 149, 100 rounds to pay.
\<close>

definition example_args :: "uint64 \<Rightarrow> uint64 \<Rightarrow> 8 word \<Rightarrow> create_args" where
  "example_args bond reserve sp = \<lparr>arg_asa_quote = 9, arg_reserve = reserve, arg_min_bid = 1,
     arg_bond = bond, arg_second_price = sp, arg_commit_end = 100, arg_unlock_slack = 50,
     arg_pay_window = 100, arg_oracle_pk = addr (CHR ''O''), arg_p_hash = addr (CHR ''P'')\<rparr>"

text \<open>Transactions of the example runs; the application's account is \<open>addr (CHR ''E'')\<close>.\<close>

definition tx_create :: "address \<Rightarrow> uint64 \<Rightarrow> create_args \<Rightarrow> app_txn" where
  "tx_create who r a = (call_ctx who r [app_call_txn], NoOp, Some (Create a))"

definition tx_opt_in :: "address \<Rightarrow> uint64 \<Rightarrow> app_txn" where
  "tx_opt_in who r = (call_ctx who r [app_call_txn], OptIn, None)"

definition tx_commit :: "address \<Rightarrow> uint64 \<Rightarrow> uint64 \<Rightarrow> bytes \<Rightarrow> bytes \<Rightarrow> app_txn" where
  "tx_commit who r bond h anon_key =
     (call_ctx who r [pay_txn (addr (CHR ''E'')) bond, app_call_txn], NoOp,
      Some (Commit h ''cid'' anon_key))"

definition tx_reveal :: "address \<Rightarrow> uint64 \<Rightarrow> bytes \<Rightarrow> uint64 \<Rightarrow> bytes \<Rightarrow> app_txn" where
  "tx_reveal who r commit_id bid salt =
     (call_ctx who r [app_call_txn], NoOp, Some (Reveal_for commit_id bid salt ''hy'' example_sig))"

definition tx_settle :: "address \<Rightarrow> uint64 \<Rightarrow> app_txn" where
  "tx_settle who r = (call_ctx who r [app_call_txn], NoOp, Some Settle)"

text \<open>The commitment of a bid under the stand-in hash, for application 7.\<close>

definition example_commitment :: "uint64 \<Rightarrow> bytes \<Rightarrow> bytes \<Rightarrow> bytes" where
  "example_commitment bid salt anon_key = Itob bid @ salt @ anon_key @ Itob 7"

text \<open>
  The runs of the examples: the seller \<open>S\<close> creates the auction at round 10 with the
  given bond and unlock slack (reserve 1, second price), the bidder \<open>B\<close> opts in and
  commits to the bid 3 with the salt \<^verbatim>\<open>salt\<close> and the privacy key \<open>K\<close>.
\<close>

definition example_hash :: bytes where
  "example_hash = example_commitment 3 ''salt'' (addr (CHR ''K''))"

definition committed_run :: "uint64 \<Rightarrow> uint64 \<Rightarrow> app_txn list" where
  "committed_run bond slack =
     [tx_create (addr (CHR ''S'')) 10 ((example_args bond 1 1)\<lparr>arg_unlock_slack := slack\<rparr>),
      tx_opt_in (addr (CHR ''B'')) 20,
      tx_commit (addr (CHR ''B'')) 30 bond example_hash (addr (CHR ''K''))]"

definition committed_state :: "uint64 \<Rightarrow> uint64 \<Rightarrow> state" where
  "committed_state bond slack = fst (reached example_avm (committed_run bond slack))"

text \<open>\<open>B\<close> reveals its own bid at round 120; then anyone settles at round 150.\<close>

definition revealed_state :: state where
  "revealed_state =
     fst (reached example_avm
       (committed_run 5 50 @ [tx_reveal (addr (CHR ''B'')) 120 example_hash 3 ''salt'']))"

definition settled_state :: state where
  "settled_state =
     fst (reached example_avm
       (committed_run 5 50 @ [tx_reveal (addr (CHR ''B'')) 120 example_hash 3 ''salt'',
                              tx_settle (addr (CHR ''T'')) 150]))"

definition remaining_bond :: "state \<Rightarrow> address \<Rightarrow> uint64 option" where
  "remaining_bond s a = map_option REMAINING_BOND (locals s a)"

section \<open>Predicates used in the statements\<close>

text \<open>The guards of \<^verbatim>\<open>reveal_for\<close>, in the order of the source: lines 292-295,\<close>

definition in_reveal_window :: "ctx \<Rightarrow> global_state \<Rightarrow> bool" where
  "in_reveal_window e g =
     (COMMIT_END g \<le> Global_round e \<and> unat (COMMIT_END g) + unat (UNLOCK_SLACK g) < 2 ^ 64 \<and>
      Global_round e < COMMIT_END g + UNLOCK_SLACK g)"

text \<open>lines 298-314,\<close>

definition attestation_ok :: "avm \<Rightarrow> ctx \<Rightarrow> bytes \<Rightarrow> bytes \<Rightarrow> global_state \<Rightarrow> bool" where
  "attestation_ok A e hy att g =
     (length att = 64 \<and>
      (case P_HASH g of
         None \<Rightarrow> False
       | Some p_hash \<Rightarrow>
           (case ORACLE_PK g of
              None \<Rightarrow> False
            | Some pk \<Rightarrow>
                length pk = 32 \<and>
                Ed25519Verify A
                  (attestation_msg e hy p_hash (COMMIT_END g) (COMMIT_END g + UNLOCK_SLACK g))
                  att pk)))"

text \<open>
  and lines 317-334 with the multiplications of lines 366-367, on the record \<open>l\<close> of the
  bidder that the commitment index gives.
\<close>

definition commitment_matches :: "avm \<Rightarrow> ctx \<Rightarrow> uint64 \<Rightarrow> bytes \<Rightarrow> local_state \<Rightarrow> bool" where
  "commitment_matches A e bid salt l =
     (case ANON_KEY l of
        None \<Rightarrow> False
      | Some anon_key \<Rightarrow>
          COMMIT l =
            Some (Sha256 A (Itob bid @ salt @ anon_key @ Itob (Global_current_application_id e))))"

definition reveal_accepted :: "avm \<Rightarrow> ctx \<Rightarrow> bytes \<Rightarrow> uint64 \<Rightarrow> bytes \<Rightarrow> state \<Rightarrow> bool" where
  "reveal_accepted A e commit_id bid salt s =
     (case boxes s commit_id of
        None \<Rightarrow> False
      | Some bidder \<Rightarrow>
          (case locals s bidder of
             None \<Rightarrow> False
           | Some l \<Rightarrow>
               commitment_matches A e bid salt l \<and> REVEALED l = 0 \<and> MIN_BID (globals s) \<le> bid \<and>
               (Txn_sender e = bidder \<or> unat (REMAINING_BOND l) * 70 < 2 ^ 64)))"

fun is_create :: "app_txn \<Rightarrow> bool" where
  "is_create (e, oc, Some (Create a)) = True"
| "is_create t = False"

text \<open>
  Conservation of a bond as the specification states it: what is left of the bond of a
  bonded account and what was paid out of it add up to what it posted.
\<close>

definition bond_conserved :: "state \<times> bond_ledger \<Rightarrow> address \<Rightarrow> bool" where
  "bond_conserved c b =
     (case locals (fst c) b of
        None \<Rightarrow> True
      | Some l \<Rightarrow>
          if BONDED l = 1
          then unat (REMAINING_BOND l) + paid_out (snd c) b = posted (snd c) b
          else True)"

text \<open>The same up to one unit, which can be missing only once the bid is revealed.\<close>

definition bond_accounted :: "state \<times> bond_ledger \<Rightarrow> address \<Rightarrow> bool" where
  "bond_accounted c b =
     (case locals (fst c) b of
        None \<Rightarrow> True
      | Some l \<Rightarrow>
          if BONDED l = 1
          then unat (REMAINING_BOND l) + paid_out (snd c) b = posted (snd c) b \<or>
               (REVEALED l = 1 \<and>
                unat (REMAINING_BOND l) + paid_out (snd c) b + 1 = posted (snd c) b)
          else True)"

section \<open>Auxiliary facts\<close>

lemmas monad_defs = and_then_def require_def as_bytes_def local_of_def local_put_def

lemma unat_add_u64: "unat a + unat b < 2 ^ 64 \<Longrightarrow> unat ((a::uint64) + b) = unat a + unat b"
  by (simp add: unat_add_lem[THEN iffD1])

lemma unat_mul_u64: "unat a * unat b < 2 ^ 64 \<Longrightarrow> unat ((a::uint64) * b) = unat a * unat b"
  by (simp add: unat_mult_lem[THEN iffD1])

subsection \<open>What each method does to the global state\<close>

lemma pay_remaining_bond_globals:
  "pay_remaining_bond s a to = Inr r \<Longrightarrow> globals (fst r) = globals s"
  by (auto simp add: pay_remaining_bond_def monad_defs split: option.splits if_splits)

lemma pay_remaining_bond_boxes:
  "pay_remaining_bond s a to = Inr r \<Longrightarrow> boxes (fst r) = boxes s"
  by (auto simp add: pay_remaining_bond_def monad_defs split: option.splits if_splits)

lemma commit_globals: "commit e h c k s = Inr r \<Longrightarrow> globals (fst r) = globals s"
  by (auto simp add: commit_def monad_defs split: option.splits if_splits sum.splits)

lemma reveal_for_globals:
  "reveal_for A e cid bid salt hy att s = Inr r \<Longrightarrow>
   \<exists>bidder. boxes s cid = Some bidder \<and> globals (fst r) = update_leaderboard bidder bid (globals s)"
  by (auto simp add: reveal_for_def monad_defs split: option.splits if_splits sum.splits prod.splits)

lemma settle_globals:
  "settle e s = Inr r \<Longrightarrow>
   globals (fst r) = (globals s)\<lparr>SETTLED := 1, SETTLE_ROUND := Global_round e\<rparr>"
  by (auto simp add: settle_def monad_defs split: option.splits if_splits sum.splits)

lemma finalize_win_globals: "finalize_win e price s = Inr r \<Longrightarrow> globals (fst r) = globals s"
  by (auto simp add: finalize_win_def monad_defs split: option.splits if_splits sum.splits prod.splits
      dest!: pay_remaining_bond_globals)

lemma promote_next_globals:
  "promote_next e s = Inr r \<Longrightarrow>
   globals (fst r) = (globals s)\<lparr>WINNER := SECOND_WINNER (globals s),
     WIN_BID := SECOND_BID (globals s), SECOND_WINNER := Some [], SECOND_BID := 0,
     SETTLE_ROUND := Global_round e\<rparr>"
  by (auto simp add: promote_next_def pay_remaining_bond_def monad_defs split: option.splits if_splits sum.splits prod.splits)

lemma claim_refund_globals: "claim_refund e s = Inr r \<Longrightarrow> globals (fst r) = globals s"
  by (auto simp add: claim_refund_def pay_remaining_bond_def monad_defs split: option.splits if_splits sum.splits prod.splits)

lemma set_kyc_globals: "set_kyc e a v s = Inr r \<Longrightarrow> globals (fst r) = globals s"
  by (auto simp add: set_kyc_def monad_defs split: option.splits if_splits sum.splits)

lemma update_same: "update e s = Inr r \<Longrightarrow> r = (s, [])"
  by (auto simp add: update_def monad_defs split: option.splits if_splits)

lemma delete_same: "delete e s = Inr r \<Longrightarrow> r = (s, [])"
  by (auto simp add: delete_def monad_defs split: option.splits if_splits)

subsection \<open>The order of the leaderboard\<close>

lemma update_leaderboard_ordered:
  "SECOND_BID g \<le> WIN_BID g \<Longrightarrow>
   SECOND_BID (update_leaderboard b bid g) \<le> WIN_BID (update_leaderboard b bid g)"
  by (auto simp add: update_leaderboard_def)

lemma method_body_ordered:
  assumes "method_body A e mc s = Inr r" and "SECOND_BID (globals s) \<le> WIN_BID (globals s)"
  shows "SECOND_BID (globals (fst r)) \<le> WIN_BID (globals (fst r))"
proof (cases mc)
  case (Create a)
  with assms show ?thesis by (auto simp add: create_def require_def Let_def split: if_splits)
next
  case (Commit h c k)
  with assms show ?thesis by (auto dest: commit_globals)
next
  case (Reveal_for cid bid salt hy att)
  with assms show ?thesis by (auto dest!: reveal_for_globals simp add: update_leaderboard_ordered)
next
  case Settle
  with assms show ?thesis by (auto dest: settle_globals)
next
  case (Finalize_win p)
  with assms show ?thesis by (auto dest: finalize_win_globals)
next
  case Promote_next
  with assms show ?thesis by (auto dest: promote_next_globals)
next
  case Claim_refund
  with assms show ?thesis by (auto dest: claim_refund_globals)
next
  case (Set_kyc a v)
  with assms show ?thesis by (auto dest: set_kyc_globals)
next
  case Update
  with assms show ?thesis by (auto dest: update_same)
next
  case Delete
  with assms show ?thesis by (auto dest: delete_same)
qed

lemma approval_program_bare:
  "approval_program A e oc None s = Inr r \<Longrightarrow> r = (s, [])"
  by (auto simp add: approval_program_def split: if_splits)

lemma approval_program_method:
  "approval_program A e oc (Some mc) s = Inr r \<Longrightarrow> oc = NoOp \<and> method_body A e mc s = Inr r"
  by (auto simp add: approval_program_def method_config_def admits_def split: if_splits)

text \<open>
  A successful transaction either ran a method with the on-completion action \<open>NoOp\<close>,
  or changed nothing but the sender's local state.
\<close>

lemma ledger_step_cases:
  assumes "ledger_step A (e, oc, m) s = Some r"
  shows "((m = None \<or> oc \<noteq> NoOp) \<and>
          globals (fst r) = globals s \<and> boxes (fst r) = boxes s \<and> snd r = [] \<and>
          (\<forall>b. b \<noteq> Txn_sender e \<longrightarrow> locals (fst r) b = locals s b) \<and>
          (locals (fst r) (Txn_sender e) = None \<or> locals (fst r) (Txn_sender e) = Some fresh_local \<or>
           locals (fst r) (Txn_sender e) = locals s (Txn_sender e))) \<or>
         (\<exists>mc. m = Some mc \<and> oc = NoOp \<and> method_body A e mc s = Inr r)"
proof (cases m)
  case None
  with assms show ?thesis
    by (cases oc) (auto simp add: ledger_step_def split: if_splits sum.splits dest!: approval_program_bare)
next
  case (Some mc)
  with assms show ?thesis
    by (cases oc) (auto simp add: ledger_step_def split: if_splits sum.splits dest!: approval_program_method)
qed

lemma ledger_step_ordered:
  assumes "ledger_step A t s = Some r" and "SECOND_BID (globals s) \<le> WIN_BID (globals s)"
  shows "SECOND_BID (globals (fst r)) \<le> WIN_BID (globals (fst r))"
proof -
  obtain e oc m where t: "t = (e, oc, m)" by (cases t) auto
  from ledger_step_cases[OF assms(1)[unfolded t]] assms(2) show ?thesis
    by (auto dest: method_body_ordered)
qed

lemma run_ordered:
  "SECOND_BID (globals (fst c)) \<le> WIN_BID (globals (fst c)) \<Longrightarrow>
   SECOND_BID (globals (fst (run A ts c))) \<le> WIN_BID (globals (fst (run A ts c)))"
proof (induction ts arbitrary: c)
  case Nil
  then show ?case by simp
next
  case (Cons t ts)
  show ?case
  proof (cases "ledger_step A t (fst c)")
    case None
    then show ?thesis using Cons by simp
  next
    case (Some r)
    have "SECOND_BID (globals (fst r)) \<le> WIN_BID (globals (fst r))"
      using ledger_step_ordered[OF Some Cons.prems] .
    then show ?thesis using Some Cons by simp
  qed
qed

subsection \<open>Failed calls\<close>

lemma method_Inl_ledger_step:
  "method_body A e mc s = Inl x \<Longrightarrow> ledger_step A (e, NoOp, Some mc) s = None"
  by (simp add: ledger_step_def approval_program_def)

subsection \<open>The price of \<^verbatim>\<open>finalize_win\<close>\<close>

lemma expected_price_max:
  "expected_price g =
     (if SECOND_PRICE g = 1 then max (SECOND_BID g) (RESERVE g) else max (WIN_BID g) (RESERVE g))"
  by (auto simp add: expected_price_def max_def)

lemma finalize_win_Inr_price:
  "finalize_win e price s = Inr r \<Longrightarrow> price = expected_price (globals s)"
  by (simp add: finalize_win_def monad_defs split: if_splits option.splits sum.splits)

lemma finalize_win_wrong_price:
  assumes "SETTLED (globals s) = 1" and "WINNER (globals s) = Some (Txn_sender e)"
    and "unat (SETTLE_ROUND (globals s)) + unat (PAY_WINDOW (globals s)) < 2 ^ 64"
    and "Global_round e \<le> SETTLE_ROUND (globals s) + PAY_WINDOW (globals s)"
    and "length (Gtxn e) = 2" and "type_enum (Gtxn e ! 0) = AssetTransfer"
    and "xfer_asset (Gtxn e ! 0) = ASA_QUOTE (globals s)"
    and "asset_receiver (Gtxn e ! 0) = Global_current_application_address e"
    and "asset_amount (Gtxn e ! 0) = price"
    and "price \<noteq> expected_price (globals s)"
  shows "finalize_win e price s = Inl PriceMismatch"
  using assms by (simp add: finalize_win_def monad_defs add_u64_def)

subsection \<open>Settlement\<close>

lemma settle_ok:
  assumes "WINNER (globals s) \<noteq> None"
    and "unat (COMMIT_END (globals s)) + unat (UNLOCK_SLACK (globals s)) \<le> unat (Global_round e)"
    and "SETTLED (globals s) = 0"
  shows "settle e s = Inr (s\<lparr>globals := (globals s)\<lparr>SETTLED := 1, SETTLE_ROUND := Global_round e\<rparr>\<rparr>, [])"
proof -
  have b: "unat (Global_round e) < 2 ^ 64" using unsigned_less[of "Global_round e"] by simp
  have lt: "unat (COMMIT_END (globals s)) + unat (UNLOCK_SLACK (globals s)) < 2 ^ 64"
    using assms(2) b by linarith
  have "COMMIT_END (globals s) + UNLOCK_SLACK (globals s) \<le> Global_round e"
    using assms(2) lt by (simp add: word_le_nat_alt unat_add_u64)
  then show ?thesis using assms lt
    by (auto simp add: settle_def monad_defs add_u64_def)
qed

lemma settle_again:
  assumes "SETTLED (globals s) = 1"
  shows "isl (settle e s)"
    and "unat (COMMIT_END (globals s)) + unat (UNLOCK_SLACK (globals s)) \<le> unat (Global_round e)
         \<Longrightarrow> settle e s = Inl AlreadySettled"
proof -
  show "isl (settle e s)" using assms by (simp add: settle_def monad_defs add_u64_def)
  assume a: "unat (COMMIT_END (globals s)) + unat (UNLOCK_SLACK (globals s)) \<le> unat (Global_round e)"
  have b: "unat (Global_round e) < 2 ^ 64" using unsigned_less[of "Global_round e"] by simp
  have lt: "unat (COMMIT_END (globals s)) + unat (UNLOCK_SLACK (globals s)) < 2 ^ 64"
    using a b by linarith
  have "COMMIT_END (globals s) + UNLOCK_SLACK (globals s) \<le> Global_round e"
    using a lt by (simp add: word_le_nat_alt unat_add_u64)
  then show "settle e s = Inl AlreadySettled" using assms lt
    by (simp add: settle_def monad_defs add_u64_def)
qed

lemma is_create_iff: "is_create (e, oc, Some mc) \<longleftrightarrow> (\<exists>a. mc = Create a)"
  by (cases mc) auto

lemma update_leaderboard_schedule:
  "SETTLED (update_leaderboard b bid g) = SETTLED g"
  "COMMIT_END (update_leaderboard b bid g) = COMMIT_END g"
  "UNLOCK_SLACK (update_leaderboard b bid g) = UNLOCK_SLACK g"
  by (auto simp add: update_leaderboard_def)

lemma method_body_keeps_settled:
  assumes "method_body A e mc s = Inr r" and "\<not> (\<exists>a. mc = Create a)"
    and "SETTLED (globals s) = 1"
  shows "SETTLED (globals (fst r)) = 1 \<and> COMMIT_END (globals (fst r)) = COMMIT_END (globals s) \<and>
         UNLOCK_SLACK (globals (fst r)) = UNLOCK_SLACK (globals s)"
proof (cases mc)
  case (Create a)
  with assms show ?thesis by simp
next
  case (Commit h c k)
  with assms show ?thesis by (auto dest: commit_globals)
next
  case (Reveal_for cid bid salt hy att)
  with assms show ?thesis by (auto dest!: reveal_for_globals simp add: update_leaderboard_schedule)
next
  case Settle
  with assms show ?thesis by (auto dest: settle_globals)
next
  case (Finalize_win p)
  with assms show ?thesis by (auto dest: finalize_win_globals)
next
  case Promote_next
  with assms show ?thesis by (auto dest: promote_next_globals)
next
  case Claim_refund
  with assms show ?thesis by (auto dest: claim_refund_globals)
next
  case (Set_kyc a v)
  with assms show ?thesis by (auto dest: set_kyc_globals)
next
  case Update
  with assms show ?thesis by (auto dest: update_same)
next
  case Delete
  with assms show ?thesis by (auto dest: delete_same)
qed

lemma ledger_step_keeps_settled:
  assumes "ledger_step A t s = Some r" and "\<not> is_create t" and "SETTLED (globals s) = 1"
  shows "SETTLED (globals (fst r)) = 1 \<and> COMMIT_END (globals (fst r)) = COMMIT_END (globals s) \<and>
         UNLOCK_SLACK (globals (fst r)) = UNLOCK_SLACK (globals s)"
proof -
  obtain e oc m where t: "t = (e, oc, m)" by (cases t) auto
  from ledger_step_cases[OF assms(1)[unfolded t]] assms(2,3) t show ?thesis
    by (auto simp add: is_create_iff dest: method_body_keeps_settled)
qed

lemma run_keeps_settled:
  "\<forall>t\<in>set ts. \<not> is_create t \<Longrightarrow> SETTLED (globals (fst c)) = 1 \<Longrightarrow>
   SETTLED (globals (fst (run A ts c))) = 1 \<and>
   COMMIT_END (globals (fst (run A ts c))) = COMMIT_END (globals (fst c)) \<and>
   UNLOCK_SLACK (globals (fst (run A ts c))) = UNLOCK_SLACK (globals (fst c))"
proof (induction ts arbitrary: c)
  case Nil
  then show ?case by simp
next
  case (Cons t ts)
  show ?case
  proof (cases "ledger_step A t (fst c)")
    case None
    then show ?thesis using Cons by simp
  next
    case (Some r)
    have k: "SETTLED (globals (fst r)) = 1 \<and> COMMIT_END (globals (fst r)) = COMMIT_END (globals (fst c)) \<and>
         UNLOCK_SLACK (globals (fst r)) = UNLOCK_SLACK (globals (fst c))"
      using ledger_step_keeps_settled[OF Some] Cons.prems by simp
    have "SETTLED (globals (fst (run A ts (fst r, record_call t (fst c) (snd r) (snd c))))) = 1 \<and>
       COMMIT_END (globals (fst (run A ts (fst r, record_call t (fst c) (snd r) (snd c))))) = COMMIT_END (globals (fst r)) \<and>
       UNLOCK_SLACK (globals (fst (run A ts (fst r, record_call t (fst c) (snd r) (snd c))))) = UNLOCK_SLACK (globals (fst r))"
      using Cons.IH[of "(fst r, record_call t (fst c) (snd r) (snd c))"] Cons.prems k by simp
    then show ?thesis using Some Cons.prems k by simp
  qed
qed

subsection \<open>Evaluating the examples\<close>

lemma addr_eq [simp]: "addr c = addr d \<longleftrightarrow> c = d"
  by (simp add: addr_def)

lemma addr_length [simp]: "length (addr c) = 32"
  by (simp add: addr_def)

lemma addr_not_Nil [simp]: "addr c \<noteq> []" "[] \<noteq> addr c"
  by (auto simp add: addr_def)

lemmas eval_defs = reached_def deployed_def fresh_globals_def fresh_local_def no_bonds_def
  ledger_step_def approval_program_def admits_def bare_call_actions_def method_config_def
  tx_create_def tx_opt_in_def tx_commit_def tx_reveal_def tx_settle_def call_ctx_def
  app_call_txn_def pay_txn_def axfer_txn_def example_args_def example_avm_def example_sig_def
  create_def commit_def reveal_for_def settle_def finalize_win_def promote_next_def
  claim_refund_def set_kyc_def update_def delete_def
  and_then_def require_def as_bytes_def local_of_def local_put_def
  add_u64_def mul_u64_def div_u64_def Ed25519Verify_Bare_def box_put_def
  attestation_msg_def commitment_preimage_def update_leaderboard_def bounty_payout_def
  pay_remaining_bond_def expected_price_def account_ref_def record_call_def
  example_commitment_def example_hash_def committed_run_def committed_state_def
  revealed_state_def settled_state_def remaining_bond_def
  in_reveal_window_def attestation_ok_def commitment_matches_def reveal_accepted_def

subsection \<open>Revealing\<close>

lemma reveal_for_succeeds_iff:
  "(\<exists>r. reveal_for A e commit_id bid salt hy att s = Inr r) \<longleftrightarrow>
   in_reveal_window e (globals s) \<and> attestation_ok A e hy att (globals s) \<and>
   reveal_accepted A e commit_id bid salt s"
  by (auto simp add: reveal_for_def in_reveal_window_def attestation_ok_def reveal_accepted_def
      commitment_matches_def commitment_preimage_def bounty_payout_def
      monad_defs add_u64_def mul_u64_def div_u64_def Ed25519Verify_Bare_def Let_def
      split: option.splits if_splits sum.splits prod.splits)

lemma reveal_for_mismatch:
  assumes "in_reveal_window e (globals s)" and "attestation_ok A e hy att (globals s)"
    and "boxes s cid = Some bidder" and "locals s bidder = Some l"
    and "ANON_KEY l \<noteq> None" and "COMMIT l \<noteq> None"
    and "\<not> commitment_matches A e bid salt l"
  shows "reveal_for A e cid bid salt hy att s = Inl CommitmentMismatch"
  using assms
  by (auto simp add: reveal_for_def in_reveal_window_def attestation_ok_def
      commitment_matches_def commitment_preimage_def
      monad_defs add_u64_def Ed25519Verify_Bare_def
      split: option.splits)

lemma reveal_for_effect:
  assumes "reveal_for A e cid bid salt hy att s = Inr (s', outs)"
  shows "\<exists>bidder l l'. boxes s cid = Some bidder \<and> locals s bidder = Some l \<and> REVEALED l = 0 \<and>
           bounty_payout e bidder (l\<lparr>REVEALED := 1, BID := bid\<rparr>) = Inr (l', outs) \<and>
           locals s' = (locals s)(bidder \<mapsto> l') \<and> boxes s' = boxes s"
  using assms
  by (auto simp add: reveal_for_def monad_defs split: option.splits if_splits sum.splits prod.splits)

lemma reveal_for_at_window_end:
  assumes "unat (Global_round e) = unat (COMMIT_END (globals s)) + unat (UNLOCK_SLACK (globals s))"
  shows "reveal_for A e cid bid salt hy att s = Inl PhaseViolation"
proof -
  have b: "unat (Global_round e) < 2 ^ 64" using unsigned_less[of "Global_round e"] by simp
  have lt: "unat (COMMIT_END (globals s)) + unat (UNLOCK_SLACK (globals s)) < 2 ^ 64"
    using assms b by linarith
  have eq: "Global_round e = COMMIT_END (globals s) + UNLOCK_SLACK (globals s)"
    using assms lt by (simp add: word_unat_eq_iff unat_add_u64)
  show ?thesis using lt eq
    by (simp add: reveal_for_def monad_defs add_u64_def)
qed

lemma in_reveal_window_at_commit_end:
  assumes "Global_round e = COMMIT_END g" and "0 < UNLOCK_SLACK g"
    and "unat (COMMIT_END g) + unat (UNLOCK_SLACK g) < 2 ^ 64"
  shows "in_reveal_window e g"
proof -
  have "0 < unat (UNLOCK_SLACK g)" using assms(2) by (simp add: word_less_nat_alt)
  then have "unat (COMMIT_END g) < unat (COMMIT_END g + UNLOCK_SLACK g)"
    using assms(3) by (simp add: unat_add_u64)
  then show ?thesis using assms by (simp add: in_reveal_window_def word_less_nat_alt)
qed

subsection \<open>The bounty\<close>

lemma split_sum: "(r::nat) * 70 div 100 + r * 30 div 100 = (if r mod 10 = 0 then r else r - 1)"
proof -
  define q m where "q = r div 10" and "m = r mod 10"
  have r: "r = 10 * q + m" and m: "m < 10" by (simp_all add: q_def m_def)
  have "r * 70 = 100 * (7 * q) + 70 * m" using r by simp
  then have "r * 70 div 100 = (100 * (7 * q) + 70 * m) div 100" by simp
  also have "\<dots> = 7 * q + 70 * m div 100" by (rule div_mult_self4) simp
  finally have a: "r * 70 div 100 = 7 * q + 70 * m div 100" .
  have "r * 30 = 100 * (3 * q) + 30 * m" using r by simp
  then have "r * 30 div 100 = (100 * (3 * q) + 30 * m) div 100" by simp
  also have "\<dots> = 3 * q + 30 * m div 100" by (rule div_mult_self4) simp
  finally have b: "r * 30 div 100 = 3 * q + 30 * m div 100" .
  have z: "(r mod 10 = 0) = (m = 0)" by (simp add: m_def)
  from m consider "m = 0" | "m = 1" | "m = 2" | "m = 3" | "m = 4" | "m = 5" | "m = 6" | "m = 7"
    | "m = 8" | "m = 9" by atomize_elim arith
  then have k: "70 * m div 100 + 30 * m div 100 = (if m = 0 then m else m - 1)"
    by cases simp_all
  have "r * 70 div 100 + r * 30 div 100 = 10 * q + (70 * m div 100 + 30 * m div 100)"
    unfolding a b by simp
  also have "\<dots> = (if m = 0 then 10 * q + m else 10 * q + m - 1)"
    unfolding k by simp
  also have "\<dots> = (if r mod 10 = 0 then r else r - 1)"
    unfolding z using r by simp
  finally show ?thesis .
qed

lemma bounty_payout_third_party:
  assumes "bounty_payout e bidder l = Inr (l', outs)" and "Txn_sender e \<noteq> bidder"
  shows "outs = [InnerPayment (Txn_sender e) (REMAINING_BOND l * 70 div 100)] \<and>
         l' = l\<lparr>REMAINING_BOND := REMAINING_BOND l * 30 div 100\<rparr> \<and>
         unat (REMAINING_BOND l * 70 div 100) = unat (REMAINING_BOND l) * 70 div 100 \<and>
         unat (REMAINING_BOND l * 30 div 100) = unat (REMAINING_BOND l) * 30 div 100"
proof -
  have m70: "unat (REMAINING_BOND l) * 70 < 2 ^ 64"
    using assms by (auto simp add: bounty_payout_def Let_def monad_defs mul_u64_def split: if_splits)
  then have m30: "unat (REMAINING_BOND l) * 30 < 2 ^ 64" by linarith
  have u70: "unat (REMAINING_BOND l * 70) = unat (REMAINING_BOND l) * 70"
    using unat_mul_u64[of "REMAINING_BOND l" 70] m70 by simp
  have u30: "unat (REMAINING_BOND l * 30) = unat (REMAINING_BOND l) * 30"
    using unat_mul_u64[of "REMAINING_BOND l" 30] m30 by simp
  have d70: "unat (REMAINING_BOND l * 70 div 100) = unat (REMAINING_BOND l) * 70 div 100"
    using u70 by (simp add: unat_div)
  have d30: "unat (REMAINING_BOND l * 30 div 100) = unat (REMAINING_BOND l) * 30 div 100"
    using u30 by (simp add: unat_div)
  have "outs = [InnerPayment (Txn_sender e) (REMAINING_BOND l * 70 div 100)] \<and>
         l' = l\<lparr>REMAINING_BOND := REMAINING_BOND l * 30 div 100\<rparr>"
    using assms
    by (auto simp add: bounty_payout_def Let_def monad_defs mul_u64_def div_u64_def
        split: if_splits)
  then show ?thesis using d70 d30 by blast
qed

subsection \<open>What each method does to the bonds\<close>

lemma pay_remaining_bond_effect:
  assumes "pay_remaining_bond s a to = Inr (s', outs)"
  shows "\<exists>l. locals s a = Some l \<and> locals s' = (locals s)(a \<mapsto> l\<lparr>REMAINING_BOND := 0\<rparr>) \<and>
           payments_total outs = unat (REMAINING_BOND l)"
proof -
  from assms obtain l where l: "locals s a = Some l"
    by (auto simp add: pay_remaining_bond_def monad_defs split: option.splits)
  show ?thesis
  proof (cases "REMAINING_BOND l > 0")
    case True
    with assms l show ?thesis
      by (auto simp add: pay_remaining_bond_def monad_defs)
  next
    case False
    then have z: "REMAINING_BOND l = 0" by (simp add: word_greater_zero_iff)
    then have "l\<lparr>REMAINING_BOND := 0\<rparr> = l" by simp
    then have "(locals s)(a \<mapsto> l\<lparr>REMAINING_BOND := 0\<rparr>) = locals s" using l by (simp add: fun_upd_idem)
    with assms l z show ?thesis
      by (auto simp add: pay_remaining_bond_def monad_defs)
  qed
qed

lemma commit_effect:
  assumes "commit e h c k s = Inr (s', outs)"
  shows "outs = [] \<and> amount (Gtxn e ! 0) = BOND (globals s) \<and>
         (\<exists>l l'. locals s (Txn_sender e) = Some l \<and> locals s' = (locals s)(Txn_sender e \<mapsto> l') \<and>
            BONDED l' = 1 \<and> REVEALED l' = 0 \<and> REMAINING_BOND l' = BOND (globals s))"
  using assms
  by (auto simp add: commit_def monad_defs split: option.splits if_splits sum.splits)

lemma finalize_win_effect:
  assumes "finalize_win e price s = Inr (s', outs)"
  shows "\<exists>l. locals s (Txn_sender e) = Some l \<and>
           locals s' = (locals s)(Txn_sender e \<mapsto> l\<lparr>REMAINING_BOND := 0\<rparr>) \<and>
           payments_total outs = unat (REMAINING_BOND l)"
proof -
  from assms obtain s1 pays seller where
    p: "pay_remaining_bond s (Txn_sender e) (Txn_sender e) = Inr (s1, pays)"
    and r: "s' = s1" "outs = InnerAssetTransfer (ASA_QUOTE (globals s)) seller price # pays"
    by (auto simp add: finalize_win_def and_then_def require_def as_bytes_def
        split: option.splits if_splits sum.splits prod.splits)
  from pay_remaining_bond_effect[OF p] r show ?thesis by auto
qed

lemma promote_next_effect:
  assumes "promote_next e s = Inr (s', outs)"
  shows "\<exists>l. locals s (account_ref e (WINNER (globals s))) = Some l \<and>
           locals s' = (locals s)(account_ref e (WINNER (globals s)) \<mapsto> l\<lparr>REMAINING_BOND := 0\<rparr>) \<and>
           payments_total outs = unat (REMAINING_BOND l)"
proof -
  from assms obtain s1 seller where
    p: "pay_remaining_bond s (account_ref e (WINNER (globals s))) seller = Inr (s1, outs)"
    and r: "locals s' = locals s1"
    by (auto simp add: promote_next_def and_then_def require_def
        split: option.splits if_splits sum.splits prod.splits)
  from pay_remaining_bond_effect[OF p] r show ?thesis by auto
qed

lemma claim_refund_effect:
  assumes "claim_refund e s = Inr (s', outs)"
  shows "\<exists>l. locals s (Txn_sender e) = Some l \<and>
           locals s' = (locals s)(Txn_sender e \<mapsto> l\<lparr>REMAINING_BOND := 0, REFUNDED := 1\<rparr>) \<and>
           payments_total outs = unat (REMAINING_BOND l)"
proof -
  from assms obtain s1 l1 where
    p: "pay_remaining_bond s (Txn_sender e) (Txn_sender e) = Inr (s1, outs)"
    and l1: "locals s1 (Txn_sender e) = Some l1"
    and r: "s' = local_put s1 (Txn_sender e) (l1\<lparr>REFUNDED := 1\<rparr>)"
    by (auto simp add: claim_refund_def and_then_def require_def local_of_def as_bytes_def
        split: option.splits if_splits sum.splits prod.splits)
  from pay_remaining_bond_effect[OF p] l1 r show ?thesis by (auto simp add: local_put_def)
qed

lemma bounty_payout_self:
  assumes "bounty_payout e bidder l = Inr (l', outs)" and "Txn_sender e = bidder"
  shows "l' = l \<and> outs = []"
  using assms by (auto simp add: bounty_payout_def Let_def)

lemma reveal_for_bond_move:
  assumes "reveal_for A e cid bid salt hy att s = Inr (s', outs)"
  shows "\<exists>b l l'. boxes s cid = Some b \<and> locals s b = Some l \<and> locals s' = (locals s)(b \<mapsto> l') \<and>
           BONDED l' = BONDED l \<and> REVEALED l = 0 \<and> REVEALED l' = 1 \<and>
           (unat (REMAINING_BOND l') + payments_total outs = unat (REMAINING_BOND l) \<or>
            unat (REMAINING_BOND l') + payments_total outs + 1 = unat (REMAINING_BOND l))"
proof -
  from reveal_for_effect[OF assms] obtain b l l' where
    bx: "boxes s cid = Some b" and l: "locals s b = Some l" and r0: "REVEALED l = 0"
    and bp: "bounty_payout e b (l\<lparr>REVEALED := 1, BID := bid\<rparr>) = Inr (l', outs)"
    and loc: "locals s' = (locals s)(b \<mapsto> l')" by blast
  let ?l1 = "l\<lparr>REVEALED := 1, BID := bid\<rparr>"
  have m: "BONDED l' = BONDED l \<and> REVEALED l' = 1 \<and>
           (unat (REMAINING_BOND l') + payments_total outs = unat (REMAINING_BOND l) \<or>
            unat (REMAINING_BOND l') + payments_total outs + 1 = unat (REMAINING_BOND l))"
  proof (cases "Txn_sender e = b")
    case True
    from bounty_payout_self[OF bp True] show ?thesis by simp
  next
    case False
    from bounty_payout_third_party[OF bp False] have
      o: "outs = [InnerPayment (Txn_sender e) (REMAINING_BOND l * 70 div 100)]"
      and l': "l' = ?l1\<lparr>REMAINING_BOND := REMAINING_BOND l * 30 div 100\<rparr>"
      and u70: "unat (REMAINING_BOND l * 70 div 100) = unat (REMAINING_BOND l) * 70 div 100"
      and u30: "unat (REMAINING_BOND l * 30 div 100) = unat (REMAINING_BOND l) * 30 div 100"
      by simp_all
    have pt: "payments_total outs = unat (REMAINING_BOND l) * 70 div 100" using o u70 by simp
    have rb: "unat (REMAINING_BOND l') = unat (REMAINING_BOND l) * 30 div 100" using l' u30 by simp
    have "unat (REMAINING_BOND l') + payments_total outs =
            (if unat (REMAINING_BOND l) mod 10 = 0 then unat (REMAINING_BOND l)
             else unat (REMAINING_BOND l) - 1)"
      using split_sum[of "unat (REMAINING_BOND l)"] pt rb by simp
    moreover have "unat (REMAINING_BOND l) mod 10 \<noteq> 0 \<Longrightarrow> 0 < unat (REMAINING_BOND l)"
      by (cases "unat (REMAINING_BOND l)") auto
    ultimately have "unat (REMAINING_BOND l') + payments_total outs = unat (REMAINING_BOND l) \<or>
            unat (REMAINING_BOND l') + payments_total outs + 1 = unat (REMAINING_BOND l)"
      by (cases "unat (REMAINING_BOND l) mod 10 = 0") auto
    then show ?thesis using l' by simp
  qed
  show ?thesis using bx l loc r0 m by blast
qed

lemma method_body_bonds:
  assumes "method_body A e mc s = Inr (s', outs)" and "\<forall>h c k. mc \<noteq> Commit h c k"
  shows "(bond_source e mc s = None \<and> locals s' = locals s) \<or>
         (\<exists>b l l'. bond_source e mc s = Some b \<and> locals s b = Some l \<and>
            locals s' = (locals s)(b \<mapsto> l') \<and> BONDED l' = BONDED l \<and>
            ((REVEALED l' = REVEALED l \<and>
              unat (REMAINING_BOND l') + payments_total outs = unat (REMAINING_BOND l)) \<or>
             (REVEALED l = 0 \<and> REVEALED l' = 1 \<and>
              (unat (REMAINING_BOND l') + payments_total outs = unat (REMAINING_BOND l) \<or>
               unat (REMAINING_BOND l') + payments_total outs + 1 = unat (REMAINING_BOND l)))))"
proof (cases mc)
  case (Create a)
  with assms show ?thesis by (auto simp add: create_def require_def Let_def split: if_splits)
next
  case (Commit h c k)
  with assms show ?thesis by simp
next
  case (Reveal_for cid bid salt hy att)
  with assms have "reveal_for A e cid bid salt hy att s = Inr (s', outs)" by simp
  from reveal_for_bond_move[OF this] Reveal_for show ?thesis by auto
next
  case Settle
  with assms show ?thesis
    by (auto simp add: settle_def monad_defs split: option.splits if_splits sum.splits)
next
  case (Finalize_win p)
  with assms have "finalize_win e p s = Inr (s', outs)" by simp
  from finalize_win_effect[OF this] obtain l where l: "locals s (Txn_sender e) = Some l"
    and loc: "locals s' = (locals s)(Txn_sender e \<mapsto> l\<lparr>REMAINING_BOND := 0\<rparr>)"
    and pt: "payments_total outs = unat (REMAINING_BOND l)" by blast
  have src: "bond_source e mc s = Some (Txn_sender e)" using Finalize_win by simp
  have "BONDED (l\<lparr>REMAINING_BOND := 0\<rparr>) = BONDED l \<and> REVEALED (l\<lparr>REMAINING_BOND := 0\<rparr>) = REVEALED l \<and>
        unat (REMAINING_BOND (l\<lparr>REMAINING_BOND := 0\<rparr>)) + payments_total outs = unat (REMAINING_BOND l)"
    using pt by simp
  then show ?thesis using src l loc by blast
next
  case Promote_next
  with assms have "promote_next e s = Inr (s', outs)" by simp
  from promote_next_effect[OF this] obtain l where l: "locals s (account_ref e (WINNER (globals s))) = Some l"
    and loc: "locals s' = (locals s)(account_ref e (WINNER (globals s)) \<mapsto> l\<lparr>REMAINING_BOND := 0\<rparr>)"
    and pt: "payments_total outs = unat (REMAINING_BOND l)" by blast
  have src: "bond_source e mc s = Some (account_ref e (WINNER (globals s)))" using Promote_next by simp
  have "BONDED (l\<lparr>REMAINING_BOND := 0\<rparr>) = BONDED l \<and> REVEALED (l\<lparr>REMAINING_BOND := 0\<rparr>) = REVEALED l \<and>
        unat (REMAINING_BOND (l\<lparr>REMAINING_BOND := 0\<rparr>)) + payments_total outs = unat (REMAINING_BOND l)"
    using pt by simp
  then show ?thesis using src l loc by blast
next
  case Claim_refund
  with assms have "claim_refund e s = Inr (s', outs)" by simp
  from claim_refund_effect[OF this] obtain l where l: "locals s (Txn_sender e) = Some l"
    and loc: "locals s' = (locals s)(Txn_sender e \<mapsto> l\<lparr>REMAINING_BOND := 0, REFUNDED := 1\<rparr>)"
    and pt: "payments_total outs = unat (REMAINING_BOND l)" by blast
  have src: "bond_source e mc s = Some (Txn_sender e)" using Claim_refund by simp
  have "BONDED (l\<lparr>REMAINING_BOND := 0, REFUNDED := 1\<rparr>) = BONDED l \<and> REVEALED (l\<lparr>REMAINING_BOND := 0, REFUNDED := 1\<rparr>) = REVEALED l \<and>
        unat (REMAINING_BOND (l\<lparr>REMAINING_BOND := 0, REFUNDED := 1\<rparr>)) + payments_total outs = unat (REMAINING_BOND l)"
    using pt by simp
  then show ?thesis using src l loc by blast
next
  case (Set_kyc a v)
  with assms show ?thesis
    by (auto simp add: set_kyc_def monad_defs split: option.splits if_splits sum.splits)
next
  case Update
  with assms show ?thesis by (auto dest: update_same)
next
  case Delete
  with assms show ?thesis by (auto dest: delete_same)
qed

lemma record_method_not_commit:
  "\<forall>h c k. mc \<noteq> Commit h c k \<Longrightarrow>
   record_method e mc s outs L =
     (case bond_source e mc s of
        None \<Rightarrow> L
      | Some b \<Rightarrow> L\<lparr>paid_out := (paid_out L)(b := paid_out L b + payments_total outs)\<rparr>)"
  by (cases mc) auto

lemma method_body_accounted:
  assumes "method_body A e mc s = Inr (s', outs)" and "bond_accounted (s, L) b"
  shows "bond_accounted (s', record_method e mc s outs L) b"
proof (cases "\<exists>h c k. mc = Commit h c k")
  case True
  then obtain h c k where mc: "mc = Commit h c k" by blast
  with assms have "commit e h c k s = Inr (s', outs)" by simp
  from commit_effect[OF this] obtain l l' where
    am: "amount (Gtxn e ! 0) = BOND (globals s)"
    and loc: "locals s' = (locals s)(Txn_sender e \<mapsto> l')"
    and l': "BONDED l' = 1" "REVEALED l' = 0" "REMAINING_BOND l' = BOND (globals s)"
    by blast
  show ?thesis
  proof (cases "b = Txn_sender e")
    case True
    then show ?thesis using mc am loc l' by (simp add: bond_accounted_def)
  next
    case False
    then show ?thesis using mc loc assms(2) by (auto simp add: bond_accounted_def split: option.splits)
  qed
next
  case False
  then have nc: "\<forall>h c k. mc \<noteq> Commit h c k" by blast
  note rm = record_method_not_commit[OF nc, of e s outs L]
  from method_body_bonds[OF assms(1) nc] show ?thesis
  proof
    assume "bond_source e mc s = None \<and> locals s' = locals s"
    then show ?thesis using assms(2) rm by (auto simp add: bond_accounted_def split: option.splits)
  next
    assume "\<exists>b l l'. bond_source e mc s = Some b \<and> locals s b = Some l \<and>
            locals s' = (locals s)(b \<mapsto> l') \<and> BONDED l' = BONDED l \<and>
            ((REVEALED l' = REVEALED l \<and>
              unat (REMAINING_BOND l') + payments_total outs = unat (REMAINING_BOND l)) \<or>
             (REVEALED l = 0 \<and> REVEALED l' = 1 \<and>
              (unat (REMAINING_BOND l') + payments_total outs = unat (REMAINING_BOND l) \<or>
               unat (REMAINING_BOND l') + payments_total outs + 1 = unat (REMAINING_BOND l))))"
    then obtain b0 l l' where src: "bond_source e mc s = Some b0" and l: "locals s b0 = Some l"
      and loc: "locals s' = (locals s)(b0 \<mapsto> l')" and bd: "BONDED l' = BONDED l"
      and mv: "(REVEALED l' = REVEALED l \<and>
              unat (REMAINING_BOND l') + payments_total outs = unat (REMAINING_BOND l)) \<or>
             (REVEALED l = 0 \<and> REVEALED l' = 1 \<and>
              (unat (REMAINING_BOND l') + payments_total outs = unat (REMAINING_BOND l) \<or>
               unat (REMAINING_BOND l') + payments_total outs + 1 = unat (REMAINING_BOND l)))"
      by blast
    show ?thesis
    proof (cases "b = b0")
      case False
      then show ?thesis using assms(2) rm src loc by (auto simp add: bond_accounted_def split: option.splits)
    next
      case True
      show ?thesis
      proof (cases "BONDED l = 1")
        case False
        then show ?thesis using True rm src loc bd by (simp add: bond_accounted_def)
      next
        case b1: True
        from assms(2) True l b1 have inv:
          "unat (REMAINING_BOND l) + paid_out L b0 = posted L b0 \<or>
           (REVEALED l = 1 \<and> unat (REMAINING_BOND l) + paid_out L b0 + 1 = posted L b0)"
          by (simp add: bond_accounted_def)
        have "unat (REMAINING_BOND l') + (paid_out L b0 + payments_total outs) = posted L b0 \<or>
           (REVEALED l' = 1 \<and>
            unat (REMAINING_BOND l') + (paid_out L b0 + payments_total outs) + 1 = posted L b0)"
          using inv mv by auto
        then show ?thesis using True rm src loc bd b1 by (simp add: bond_accounted_def)
      qed
    qed
  qed
qed

lemma ledger_step_accounted:
  assumes "ledger_step A t s = Some r" and "bond_accounted (s, L) b"
  shows "bond_accounted (fst r, record_call t s (snd r) L) b"
proof -
  obtain e oc m where t: "t = (e, oc, m)" by (cases t) auto
  from ledger_step_cases[OF assms(1)[unfolded t]] show ?thesis
  proof
    assume f: "(m = None \<or> oc \<noteq> NoOp) \<and>
          globals (fst r) = globals s \<and> boxes (fst r) = boxes s \<and> snd r = [] \<and>
          (\<forall>b. b \<noteq> Txn_sender e \<longrightarrow> locals (fst r) b = locals s b) \<and>
          (locals (fst r) (Txn_sender e) = None \<or> locals (fst r) (Txn_sender e) = Some fresh_local \<or>
           locals (fst r) (Txn_sender e) = locals s (Txn_sender e))"
    then have L: "record_call t s (snd r) L = L"
      by (auto simp add: record_call_def t split: option.splits)
    show ?thesis
    proof (cases "b = Txn_sender e")
      case False
      then show ?thesis using f assms(2) L by (auto simp add: bond_accounted_def split: option.splits)
    next
      case True
      from f have "locals (fst r) (Txn_sender e) = None \<or> locals (fst r) (Txn_sender e) = Some fresh_local \<or>
           locals (fst r) (Txn_sender e) = locals s (Txn_sender e)" by blast
      then show ?thesis using True assms(2) L
        by (auto simp add: bond_accounted_def fresh_local_def split: option.splits)
    qed
  next
    assume "\<exists>mc. m = Some mc \<and> oc = NoOp \<and> method_body A e mc s = Inr r"
    then obtain mc where m: "m = Some mc" "oc = NoOp" and mb: "method_body A e mc s = Inr (fst r, snd r)"
      by auto
    have "record_call t s (snd r) L = record_method e mc s (snd r) L"
      using m by (simp add: record_call_def t)
    then show ?thesis using method_body_accounted[OF mb assms(2)] by simp
  qed
qed

lemma run_accounted:
  "bond_accounted c b \<Longrightarrow> bond_accounted (run A ts c) b"
proof (induction ts arbitrary: c)
  case Nil
  then show ?case by simp
next
  case (Cons t ts)
  show ?case
  proof (cases "ledger_step A t (fst c)")
    case None
    then show ?thesis using Cons by simp
  next
    case (Some r)
    have "bond_accounted (fst c, snd c) b" using Cons.prems by simp
    from ledger_step_accounted[OF Some this]
    have "bond_accounted (fst r, record_call t (fst c) (snd r) (snd c)) b" .
    then have "bond_accounted (run A ts (fst r, record_call t (fst c) (snd r) (snd c))) b"
      by (rule Cons.IH)
    then show ?thesis using Some Cons.prems by simp
  qed
qed

subsection \<open>Created auctions\<close>

text \<open>
  Once \<^verbatim>\<open>create\<close> has run (the seller is set), \<^verbatim>\<open>WINNER\<close> holds a byte string in
  every state that a run reaches.
\<close>

lemma Itob_length: "length (Itob w) = 8"
  by (simp add: Itob_def)

lemma update_leaderboard_created:
  "SELLER (update_leaderboard b bid g) = SELLER g"
  "WINNER g \<noteq> None \<Longrightarrow> WINNER (update_leaderboard b bid g) \<noteq> None"
  by (auto simp add: update_leaderboard_def)

lemma promote_next_winner: "promote_next e s = Inr r \<Longrightarrow> WINNER (globals (fst r)) \<noteq> None"
  by (auto simp add: promote_next_def pay_remaining_bond_def monad_defs
      split: option.splits if_splits sum.splits prod.splits)

lemma method_body_created:
  assumes "method_body A e mc s = Inr r"
    and "SELLER (globals s) \<noteq> None \<longrightarrow> WINNER (globals s) \<noteq> None"
  shows "SELLER (globals (fst r)) \<noteq> None \<longrightarrow> WINNER (globals (fst r)) \<noteq> None"
proof (cases mc)
  case (Create a)
  with assms show ?thesis by (auto simp add: create_def require_def Let_def split: if_splits)
next
  case (Commit h c k)
  with assms show ?thesis by (auto dest: commit_globals)
next
  case (Reveal_for cid bid salt hy att)
  with assms obtain b where "globals (fst r) = update_leaderboard b bid (globals s)"
    by (auto dest!: reveal_for_globals)
  then show ?thesis using assms(2) update_leaderboard_created[where b=b and bid=bid and g="globals s"] by auto
next
  case Settle
  with assms show ?thesis by (auto dest: settle_globals)
next
  case (Finalize_win p)
  with assms show ?thesis by (auto dest: finalize_win_globals)
next
  case Promote_next
  with assms show ?thesis by (auto dest: promote_next_winner)
next
  case Claim_refund
  with assms show ?thesis by (auto dest: claim_refund_globals)
next
  case (Set_kyc a v)
  with assms show ?thesis by (auto dest: set_kyc_globals)
next
  case Update
  with assms show ?thesis by (auto dest: update_same)
next
  case Delete
  with assms show ?thesis by (auto dest: delete_same)
qed

lemma ledger_step_created:
  assumes "ledger_step A t s = Some r"
    and "SELLER (globals s) \<noteq> None \<longrightarrow> WINNER (globals s) \<noteq> None"
  shows "SELLER (globals (fst r)) \<noteq> None \<longrightarrow> WINNER (globals (fst r)) \<noteq> None"
proof -
  obtain e oc m where t: "t = (e, oc, m)" by (cases t) auto
  from ledger_step_cases[OF assms(1)[unfolded t]] show ?thesis
  proof
    assume "(m = None \<or> oc \<noteq> NoOp) \<and>
          globals (fst r) = globals s \<and> boxes (fst r) = boxes s \<and> snd r = [] \<and>
          (\<forall>b. b \<noteq> Txn_sender e \<longrightarrow> locals (fst r) b = locals s b) \<and>
          (locals (fst r) (Txn_sender e) = None \<or> locals (fst r) (Txn_sender e) = Some fresh_local \<or>
           locals (fst r) (Txn_sender e) = locals s (Txn_sender e))"
    then show ?thesis using assms(2) by simp
  next
    assume "\<exists>mc. m = Some mc \<and> oc = NoOp \<and> method_body A e mc s = Inr r"
    then show ?thesis using method_body_created assms(2) by blast
  qed
qed

lemma run_created:
  "SELLER (globals (fst c)) \<noteq> None \<longrightarrow> WINNER (globals (fst c)) \<noteq> None \<Longrightarrow>
   SELLER (globals (fst (run A ts c))) \<noteq> None \<longrightarrow> WINNER (globals (fst (run A ts c))) \<noteq> None"
proof (induction ts arbitrary: c)
  case Nil
  then show ?case by simp
next
  case (Cons t ts)
  show ?case
  proof (cases "ledger_step A t (fst c)")
    case None
    then show ?thesis using Cons by simp
  next
    case (Some r)
    have "SELLER (globals (fst r)) \<noteq> None \<longrightarrow> WINNER (globals (fst r)) \<noteq> None"
      using ledger_step_created[OF Some Cons.prems] .
    then have "SELLER (globals (fst (run A ts (fst r, record_call t (fst c) (snd r) (snd c))))) \<noteq> None \<longrightarrow>
       WINNER (globals (fst (run A ts (fst r, record_call t (fst c) (snd r) (snd c))))) \<noteq> None"
      using Cons.IH[of "(fst r, record_call t (fst c) (snd r) (snd c))"] by simp
    then show ?thesis using Some Cons.prems by simp
  qed
qed

lemma reached_created:
  "SELLER (globals (fst (reached A ts))) \<noteq> None \<Longrightarrow> WINNER (globals (fst (reached A ts))) \<noteq> None"
  using run_created[of "(deployed, no_bonds)" A ts]
  by (simp add: reached_def deployed_def fresh_globals_def)

section \<open>The claims\<close>

text \<open>
  Claim C6. In every state that a run of application calls reaches from the deployment
  (so after every successful \<^verbatim>\<open>reveal_for\<close> and every successful
  \<^verbatim>\<open>promote_next\<close>), the winning bid is at least the second bid.
\<close>

theorem leaderboard_ordered:
  "SECOND_BID (globals (fst (reached A ts))) \<le> WIN_BID (globals (fst (reached A ts)))"
  unfolding reached_def by (rule run_ordered) (simp add: deployed_def fresh_globals_def)

text \<open>
  Claim C5. A successful \<^verbatim>\<open>finalize_win(price)\<close> has the price
  \<open>max second_bid reserve\<close> when \<^verbatim>\<open>SECOND_PRICE\<close> is 1 and
  \<open>max win_bid reserve\<close> otherwise. A call with another price fails and the ledger
  changes nothing; it fails at the price assertion (\<open>PriceMismatch\<close>) when the
  assertions before it hold.
\<close>

theorem finalize_win_price:
  "(finalize_win e price s = Inr r \<longrightarrow>
      price = (if SECOND_PRICE (globals s) = 1
               then max (SECOND_BID (globals s)) (RESERVE (globals s))
               else max (WIN_BID (globals s)) (RESERVE (globals s)))) \<and>
   (price \<noteq> (if SECOND_PRICE (globals s) = 1
               then max (SECOND_BID (globals s)) (RESERVE (globals s))
               else max (WIN_BID (globals s)) (RESERVE (globals s))) \<longrightarrow>
      isl (finalize_win e price s) \<and>
      ledger_step A (e, NoOp, Some (Finalize_win price)) s = None \<and>
      (SETTLED (globals s) = 1 \<and> WINNER (globals s) = Some (Txn_sender e) \<and>
       unat (SETTLE_ROUND (globals s)) + unat (PAY_WINDOW (globals s)) < 2 ^ 64 \<and>
       Global_round e \<le> SETTLE_ROUND (globals s) + PAY_WINDOW (globals s) \<and>
       length (Gtxn e) = 2 \<and> type_enum (Gtxn e ! 0) = AssetTransfer \<and>
       xfer_asset (Gtxn e ! 0) = ASA_QUOTE (globals s) \<and>
       asset_receiver (Gtxn e ! 0) = Global_current_application_address e \<and>
       asset_amount (Gtxn e ! 0) = price \<longrightarrow>
       finalize_win e price s = Inl PriceMismatch))"
proof (intro conjI impI)
  assume "finalize_win e price s = Inr r"
  then show "price = (if SECOND_PRICE (globals s) = 1
               then max (SECOND_BID (globals s)) (RESERVE (globals s))
               else max (WIN_BID (globals s)) (RESERVE (globals s)))"
    using finalize_win_Inr_price expected_price_max by metis
next
  assume ne: "price \<noteq> (if SECOND_PRICE (globals s) = 1
               then max (SECOND_BID (globals s)) (RESERVE (globals s))
               else max (WIN_BID (globals s)) (RESERVE (globals s)))"
  then have ne': "price \<noteq> expected_price (globals s)" unfolding expected_price_max .
  show fails: "isl (finalize_win e price s)"
  proof (cases "finalize_win e price s")
    case (Inl x) then show ?thesis by simp
  next
    case (Inr r') then show ?thesis using finalize_win_Inr_price ne' by blast
  qed
  then obtain x where "finalize_win e price s = Inl x" by (cases "finalize_win e price s") auto
  then show "ledger_step A (e, NoOp, Some (Finalize_win price)) s = None"
    by (simp add: method_Inl_ledger_step)
  assume "SETTLED (globals s) = 1 \<and> WINNER (globals s) = Some (Txn_sender e) \<and>
       unat (SETTLE_ROUND (globals s)) + unat (PAY_WINDOW (globals s)) < 2 ^ 64 \<and>
       Global_round e \<le> SETTLE_ROUND (globals s) + PAY_WINDOW (globals s) \<and>
       length (Gtxn e) = 2 \<and> type_enum (Gtxn e ! 0) = AssetTransfer \<and>
       xfer_asset (Gtxn e ! 0) = ASA_QUOTE (globals s) \<and>
       asset_receiver (Gtxn e ! 0) = Global_current_application_address e \<and>
       asset_amount (Gtxn e ! 0) = price"
  then show "finalize_win e price s = Inl PriceMismatch"
    using finalize_win_wrong_price ne' by blast
qed

theorem finalize_win_price_witness:
  "finalize_win (call_ctx (addr (CHR ''B'')) 160 [axfer_txn 9 (addr (CHR ''E'')) 7, app_call_txn]) 7
     settled_state = Inl PriceMismatch \<and>
   ledger_step example_avm
     (call_ctx (addr (CHR ''B'')) 160 [axfer_txn 9 (addr (CHR ''E'')) 7, app_call_txn], NoOp,
      Some (Finalize_win 7)) settled_state = None \<and>
   \<not> isl (finalize_win (call_ctx (addr (CHR ''B'')) 160 [axfer_txn 9 (addr (CHR ''E'')) 1, app_call_txn]) 1
     settled_state) \<and>
   SECOND_PRICE (globals settled_state) = 1 \<and>
   max (SECOND_BID (globals settled_state)) (RESERVE (globals settled_state)) = 1"
  using finalize_win_price[of "call_ctx (addr (CHR ''B'')) 160 [axfer_txn 9 (addr (CHR ''E'')) 7, app_call_txn]"
      7 settled_state undefined example_avm]
    finalize_win_price[of "call_ctx (addr (CHR ''B'')) 160 [axfer_txn 9 (addr (CHR ''E'')) 1, app_call_txn]"
      1 settled_state
      "projr (finalize_win (call_ctx (addr (CHR ''B'')) 160 [axfer_txn 9 (addr (CHR ''E'')) 1, app_call_txn])
         1 settled_state)" example_avm]
  by (simp add: eval_defs)

text \<open>
  Claim C9 fails on the code. \<^verbatim>\<open>settle\<close> itself sets \<^verbatim>\<open>SETTLED\<close> to 1 and
  \<^verbatim>\<open>SETTLE_ROUND\<close> to the clock and refuses a settled auction, but \<^verbatim>\<open>create\<close>
  has no guard on the state and writes \<^verbatim>\<open>SETTLED = 0\<close> (line 194). In the run
  below the auction is settled at round 150, the account \<open>M\<close> calls
  \<^verbatim>\<open>create\<close> at round 160, and the \<^verbatim>\<open>settle\<close> of round 1050 is accepted: the
  flag goes from 1 to 0 and to 1 again, and no call fails with \<open>AlreadySettled\<close>.
\<close>

theorem settle_again_after_create:
  "SETTLED (globals (fst (reached example_avm
     (committed_run 5 50 @
      [tx_reveal (addr (CHR ''B'')) 120 example_hash 3 ''salt'',
       tx_settle (addr (CHR ''T'')) 150])))) = 1 \<and>
   SETTLE_ROUND (globals (fst (reached example_avm
     (committed_run 5 50 @
      [tx_reveal (addr (CHR ''B'')) 120 example_hash 3 ''salt'',
       tx_settle (addr (CHR ''T'')) 150])))) = 150 \<and>
   SETTLED (globals (fst (reached example_avm
     (committed_run 5 50 @
      [tx_reveal (addr (CHR ''B'')) 120 example_hash 3 ''salt'',
       tx_settle (addr (CHR ''T'')) 150,
       tx_create (addr (CHR ''M'')) 160 ((example_args 9 2 0)\<lparr>arg_commit_end := 1000\<rparr>)])))) = 0 \<and>
   ledger_step example_avm (tx_settle (addr (CHR ''T'')) 1050)
     (fst (reached example_avm
       (committed_run 5 50 @
        [tx_reveal (addr (CHR ''B'')) 120 example_hash 3 ''salt'',
         tx_settle (addr (CHR ''T'')) 150,
         tx_create (addr (CHR ''M'')) 160 ((example_args 9 2 0)\<lparr>arg_commit_end := 1000\<rparr>)])))
     \<noteq> None \<and>
   settle (call_ctx (addr (CHR ''T'')) 1050 [app_call_txn])
     (fst (reached example_avm
       (committed_run 5 50 @
        [tx_reveal (addr (CHR ''B'')) 120 example_hash 3 ''salt'',
         tx_settle (addr (CHR ''T'')) 150,
         tx_create (addr (CHR ''M'')) 160 ((example_args 9 2 0)\<lparr>arg_commit_end := 1000\<rparr>)])))
     \<noteq> Inl AlreadySettled \<and>
   SETTLED (globals (fst (reached example_avm
     (committed_run 5 50 @
      [tx_reveal (addr (CHR ''B'')) 120 example_hash 3 ''salt'',
       tx_settle (addr (CHR ''T'')) 150,
       tx_create (addr (CHR ''M'')) 160 ((example_args 9 2 0)\<lparr>arg_commit_end := 1000\<rparr>),
       tx_settle (addr (CHR ''T'')) 1050])))) = 1 \<and>
   SETTLE_ROUND (globals (fst (reached example_avm
     (committed_run 5 50 @
      [tx_reveal (addr (CHR ''B'')) 120 example_hash 3 ''salt'',
       tx_settle (addr (CHR ''T'')) 150,
       tx_create (addr (CHR ''M'')) 160 ((example_args 9 2 0)\<lparr>arg_commit_end := 1000\<rparr>),
       tx_settle (addr (CHR ''T'')) 1050])))) = 1050"
  by (simp add: eval_defs)

text \<open>
  What does hold of \<^verbatim>\<open>settle\<close>. In a state of a created auction (\<^verbatim>\<open>WINNER\<close>
  holds a byte string; by \<open>reached_created\<close> this is so in every reached state whose
  seller is set) whose clock has reached \<open>commit_end + unlock_slack\<close> and that is not
  settled, \<^verbatim>\<open>settle\<close> succeeds and sets \<^verbatim>\<open>SETTLED\<close> to 1 and
  \<^verbatim>\<open>SETTLE_ROUND\<close> to the clock, whatever the winner, the winning bid and the reserve
  are. After any further calls other than \<^verbatim>\<open>create\<close> the auction is still settled and
  \<^verbatim>\<open>settle\<close> fails and changes nothing; at a clock that has not gone back it fails
  with \<open>AlreadySettled\<close>.
\<close>

theorem settle_once:
  assumes "WINNER (globals s) \<noteq> None"
    and "unat (COMMIT_END (globals s)) + unat (UNLOCK_SLACK (globals s)) \<le> unat (Global_round e)"
    and "SETTLED (globals s) = 0"
  shows "\<exists>s'. settle e s = Inr (s', []) \<and> SETTLED (globals s') = 1 \<and>
           SETTLE_ROUND (globals s') = Global_round e \<and>
           (\<forall>ts L e'. (\<forall>t\<in>set ts. \<not> is_create t) \<longrightarrow>
              SETTLED (globals (fst (run A ts (s', L)))) = 1 \<and>
              isl (settle e' (fst (run A ts (s', L)))) \<and>
              ledger_step A (e', NoOp, Some Settle) (fst (run A ts (s', L))) = None \<and>
              (Global_round e \<le> Global_round e' \<longrightarrow>
                 settle e' (fst (run A ts (s', L))) = Inl AlreadySettled))"
proof -
  define s' where "s' = s\<lparr>globals := (globals s)\<lparr>SETTLED := 1, SETTLE_ROUND := Global_round e\<rparr>\<rparr>"
  have ok: "settle e s = Inr (s', [])" unfolding s'_def using settle_ok[OF assms] .
  have s1: "SETTLED (globals s') = 1" and sr: "SETTLE_ROUND (globals s') = Global_round e"
    and ce: "COMMIT_END (globals s') = COMMIT_END (globals s)"
    and us: "UNLOCK_SLACK (globals s') = UNLOCK_SLACK (globals s)"
    by (simp_all add: s'_def)
  have later: "SETTLED (globals (fst (run A ts (s', L)))) = 1 \<and>
              isl (settle e' (fst (run A ts (s', L)))) \<and>
              ledger_step A (e', NoOp, Some Settle) (fst (run A ts (s', L))) = None \<and>
              (Global_round e \<le> Global_round e' \<longrightarrow>
                 settle e' (fst (run A ts (s', L))) = Inl AlreadySettled)"
    if nc: "\<forall>t\<in>set ts. \<not> is_create t" for ts L e'
  proof -
    let ?u = "fst (run A ts (s', L))"
    have k: "SETTLED (globals ?u) = 1 \<and> COMMIT_END (globals ?u) = COMMIT_END (globals s) \<and>
         UNLOCK_SLACK (globals ?u) = UNLOCK_SLACK (globals s)"
      using run_keeps_settled[OF nc, of "(s', L)" A] s1 ce us by simp
    have f: "isl (settle e' ?u)" using settle_again(1) k by blast
    then obtain x where "settle e' ?u = Inl x" by (cases "settle e' ?u") auto
    then have n: "ledger_step A (e', NoOp, Some Settle) ?u = None"
      using method_Inl_ledger_step[of A e' Settle ?u x] by simp
    have "settle e' ?u = Inl AlreadySettled" if "Global_round e \<le> Global_round e'"
    proof -
      have "unat (Global_round e) \<le> unat (Global_round e')" using that by (simp add: word_le_nat_alt)
      then have "unat (COMMIT_END (globals ?u)) + unat (UNLOCK_SLACK (globals ?u)) \<le> unat (Global_round e')"
        using assms(2) k by simp
      then show ?thesis using settle_again(2) k by blast
    qed
    then show ?thesis using k f n by blast
  qed
  show ?thesis using ok s1 sr later by blast
qed

theorem settle_once_witness:
  "WINNER (globals (committed_state 5 50)) = Some [] \<and> WIN_BID (globals (committed_state 5 50)) = 0 \<and>
   RESERVE (globals (committed_state 5 50)) = 1 \<and>
   unat (COMMIT_END (globals (committed_state 5 50))) + unat (UNLOCK_SLACK (globals (committed_state 5 50)))
     \<le> unat (Global_round (call_ctx (addr (CHR ''T'')) 150 [app_call_txn])) \<and>
   SETTLED (globals (committed_state 5 50)) = 0 \<and>
   (\<exists>s'. settle (call_ctx (addr (CHR ''T'')) 150 [app_call_txn]) (committed_state 5 50) = Inr (s', []) \<and>
      SETTLED (globals s') = 1 \<and> SETTLE_ROUND (globals s') = 150 \<and>
      settle (call_ctx (addr (CHR ''S'')) 151 [app_call_txn])
        (fst (run example_avm [tx_opt_in (addr (CHR ''T'')) 150] (s', no_bonds))) = Inl AlreadySettled)"
proof -
  have h1: "WINNER (globals (committed_state 5 50)) \<noteq> None" by (simp add: eval_defs)
  have h2: "unat (COMMIT_END (globals (committed_state 5 50))) + unat (UNLOCK_SLACK (globals (committed_state 5 50)))
     \<le> unat (Global_round (call_ctx (addr (CHR ''T'')) 150 [app_call_txn]))" by (simp add: eval_defs)
  have h3: "SETTLED (globals (committed_state 5 50)) = 0" by (simp add: eval_defs)
  have h4: "WINNER (globals (committed_state 5 50)) = Some [] \<and> WIN_BID (globals (committed_state 5 50)) = 0 \<and>
   RESERVE (globals (committed_state 5 50)) = 1" by (simp add: eval_defs)
  have nc: "\<forall>t\<in>set [tx_opt_in (addr (CHR ''T'')) 150]. \<not> is_create t" by (simp add: tx_opt_in_def)
  have le: "Global_round (call_ctx (addr (CHR ''T'')) 150 [app_call_txn])
              \<le> Global_round (call_ctx (addr (CHR ''S'')) 151 [app_call_txn])"
    by (simp add: call_ctx_def)
  have r: "Global_round (call_ctx (addr (CHR ''T'')) 150 [app_call_txn]) = 150" by (simp add: call_ctx_def)
  from settle_once[OF h1 h2 h3, of example_avm] obtain s' where
    "settle (call_ctx (addr (CHR ''T'')) 150 [app_call_txn]) (committed_state 5 50) = Inr (s', [])"
    "SETTLED (globals s') = 1"
    "SETTLE_ROUND (globals s') = Global_round (call_ctx (addr (CHR ''T'')) 150 [app_call_txn])"
    "\<forall>ts L e'. (\<forall>t\<in>set ts. \<not> is_create t) \<longrightarrow>
              SETTLED (globals (fst (run example_avm ts (s', L)))) = 1 \<and>
              isl (settle e' (fst (run example_avm ts (s', L)))) \<and>
              ledger_step example_avm (e', NoOp, Some Settle) (fst (run example_avm ts (s', L))) = None \<and>
              (Global_round (call_ctx (addr (CHR ''T'')) 150 [app_call_txn]) \<le> Global_round e' \<longrightarrow>
                 settle e' (fst (run example_avm ts (s', L))) = Inl AlreadySettled)"
    by blast
  then show ?thesis using h2 h3 h4 nc le r by metis
qed

text \<open>
  Claim C10. A bare call of the deployed application with the on-completion action
  \<^verbatim>\<open>UpdateApplication\<close> or \<^verbatim>\<open>DeleteApplication\<close> is approved for every sender
  and in every state. The methods \<^verbatim>\<open>update\<close> and \<^verbatim>\<open>delete\<close>, which do
  compare the sender with the seller, are not reachable with these on-completion actions.
\<close>

theorem bare_update_delete_unguarded:
  assumes "Txn_application_id e \<noteq> 0" and "oc = UpdateApplication \<or> oc = DeleteApplication"
  shows "approval_program A e oc None s = Inr (s, []) \<and>
         ledger_step A (e, oc, None) s = Some (s, []) \<and>
         approval_program A e oc (Some Update) s = Inl Rejected \<and>
         approval_program A e oc (Some Delete) s = Inl Rejected \<and>
         (\<forall>seller. SELLER (globals s) = Some seller \<and> Txn_sender e \<noteq> seller \<longrightarrow>
            update e s = Inl NotSeller \<and> delete e s = Inl NotSeller)"
  using assms
  by (auto simp add: approval_program_def ledger_step_def admits_def bare_call_actions_def
      method_config_def update_def delete_def monad_defs)

theorem bare_update_delete_unguarded_witness:
  "Txn_application_id (call_ctx (addr (CHR ''M'')) 500 [app_call_txn]) \<noteq> 0 \<and>
   SELLER (globals settled_state) = Some (addr (CHR ''S'')) \<and>
   approval_program example_avm (call_ctx (addr (CHR ''M'')) 500 [app_call_txn]) DeleteApplication None
     settled_state = Inr (settled_state, []) \<and>
   update (call_ctx (addr (CHR ''M'')) 500 [app_call_txn]) settled_state = Inl NotSeller \<and>
   delete (call_ctx (addr (CHR ''M'')) 500 [app_call_txn]) settled_state = Inl NotSeller"
proof -
  have h1: "Txn_application_id (call_ctx (addr (CHR ''M'')) 500 [app_call_txn]) \<noteq> 0"
    by (simp add: call_ctx_def)
  have h2: "SELLER (globals settled_state) = Some (addr (CHR ''S''))" by (simp add: eval_defs)
  have h3: "Txn_sender (call_ctx (addr (CHR ''M'')) 500 [app_call_txn]) \<noteq> addr (CHR ''S'')"
    by (simp add: call_ctx_def)
  show ?thesis
    using bare_update_delete_unguarded[OF h1, of DeleteApplication example_avm settled_state] h1 h2 h3
    by blast
qed

text \<open>
  Claim C7. \<^verbatim>\<open>reveal_for\<close> succeeds only if the SHA-256 hash of the 8 big-endian bytes
  of the bid, the salt, the privacy key stored for the bidder and the 8 big-endian bytes of
  the application id is the commitment stored for the bidder. When it is not, the call
  fails and the ledger changes nothing; it fails at the commitment assertion
  (\<open>CommitmentMismatch\<close>) when the guards before it hold.
\<close>

theorem reveal_for_commitment_check:
  "(reveal_for A e cid bid salt hy att s = Inr r \<longrightarrow>
      (\<exists>bidder l. boxes s cid = Some bidder \<and> locals s bidder = Some l \<and>
         commitment_matches A e bid salt l)) \<and>
   (\<forall>bidder l. boxes s cid = Some bidder \<and> locals s bidder = Some l \<and>
        \<not> commitment_matches A e bid salt l \<longrightarrow>
        isl (reveal_for A e cid bid salt hy att s) \<and>
        ledger_step A (e, NoOp, Some (Reveal_for cid bid salt hy att)) s = None \<and>
        (in_reveal_window e (globals s) \<and> attestation_ok A e hy att (globals s) \<and>
         ANON_KEY l \<noteq> None \<and> COMMIT l \<noteq> None \<longrightarrow>
         reveal_for A e cid bid salt hy att s = Inl CommitmentMismatch))"
proof (intro conjI impI allI)
  assume "reveal_for A e cid bid salt hy att s = Inr r"
  then have "reveal_accepted A e cid bid salt s" using reveal_for_succeeds_iff by blast
  then show "\<exists>bidder l. boxes s cid = Some bidder \<and> locals s bidder = Some l \<and>
         commitment_matches A e bid salt l"
    by (auto simp add: reveal_accepted_def split: option.splits)
next
  fix bidder l
  assume a: "boxes s cid = Some bidder \<and> locals s bidder = Some l \<and>
        \<not> commitment_matches A e bid salt l"
  then have "\<not> reveal_accepted A e cid bid salt s" by (simp add: reveal_accepted_def)
  then have n: "\<not> (\<exists>r. reveal_for A e cid bid salt hy att s = Inr r)"
    using reveal_for_succeeds_iff by blast
  then show f: "isl (reveal_for A e cid bid salt hy att s)"
    by (cases "reveal_for A e cid bid salt hy att s") auto
  then obtain x where "reveal_for A e cid bid salt hy att s = Inl x"
    by (cases "reveal_for A e cid bid salt hy att s") auto
  then show "ledger_step A (e, NoOp, Some (Reveal_for cid bid salt hy att)) s = None"
    using method_Inl_ledger_step[of A e "Reveal_for cid bid salt hy att" s x] by simp
  assume "in_reveal_window e (globals s) \<and> attestation_ok A e hy att (globals s) \<and>
         ANON_KEY l \<noteq> None \<and> COMMIT l \<noteq> None"
  then show "reveal_for A e cid bid salt hy att s = Inl CommitmentMismatch"
    using a reveal_for_mismatch by blast
qed

lemma Itob_3_4: "Itob 3 \<noteq> Itob 4"
  by (simp add: Itob_def)

theorem reveal_for_commitment_check_witness:
  "boxes (committed_state 5 50) example_hash = Some (addr (CHR ''B'')) \<and>
   map_option COMMIT (locals (committed_state 5 50) (addr (CHR ''B''))) = Some (Some example_hash) \<and>
   reveal_for example_avm (call_ctx (addr (CHR ''B'')) 120 [app_call_txn]) example_hash 4 ''salt''
     ''hy'' example_sig (committed_state 5 50) = Inl CommitmentMismatch \<and>
   \<not> isl (reveal_for example_avm (call_ctx (addr (CHR ''B'')) 120 [app_call_txn]) example_hash 3
     ''salt'' ''hy'' example_sig (committed_state 5 50))"
  using reveal_for_commitment_check[of example_avm "call_ctx (addr (CHR ''B'')) 120 [app_call_txn]"
      example_hash 4 "''salt''" "''hy''" example_sig "committed_state 5 50" undefined]
    reveal_for_commitment_check[of example_avm "call_ctx (addr (CHR ''B'')) 120 [app_call_txn]"
      example_hash 3 "''salt''" "''hy''" example_sig "committed_state 5 50"
      "projr (reveal_for example_avm (call_ctx (addr (CHR ''B'')) 120 [app_call_txn]) example_hash 3
         ''salt'' ''hy'' example_sig (committed_state 5 50))"]
    Itob_3_4
  by (simp add: eval_defs)

text \<open>
  Claim C8, amended. With the other preconditions of \<^verbatim>\<open>reveal_for\<close> satisfied, a call
  at the clock \<open>commit_end\<close> succeeds when \<open>unlock_slack\<close> is positive and
  \<open>commit_end + unlock_slack\<close> fits in 64 bits. A call at the clock
  \<open>commit_end + unlock_slack\<close> fails with \<open>PhaseViolation\<close> and the ledger changes
  nothing.
\<close>

theorem reveal_for_window_boundaries:
  "(attestation_ok A e hy att (globals s) \<and> reveal_accepted A e cid bid salt s \<and>
    Global_round e = COMMIT_END (globals s) \<and> 0 < UNLOCK_SLACK (globals s) \<and>
    unat (COMMIT_END (globals s)) + unat (UNLOCK_SLACK (globals s)) < 2 ^ 64 \<longrightarrow>
      (\<exists>r. reveal_for A e cid bid salt hy att s = Inr r)) \<and>
   (unat (Global_round e) = unat (COMMIT_END (globals s)) + unat (UNLOCK_SLACK (globals s)) \<longrightarrow>
      reveal_for A e cid bid salt hy att s = Inl PhaseViolation \<and>
      ledger_step A (e, NoOp, Some (Reveal_for cid bid salt hy att)) s = None)"
proof (intro conjI impI)
  assume "attestation_ok A e hy att (globals s) \<and> reveal_accepted A e cid bid salt s \<and>
    Global_round e = COMMIT_END (globals s) \<and> 0 < UNLOCK_SLACK (globals s) \<and>
    unat (COMMIT_END (globals s)) + unat (UNLOCK_SLACK (globals s)) < 2 ^ 64"
  then show "\<exists>r. reveal_for A e cid bid salt hy att s = Inr r"
    using reveal_for_succeeds_iff in_reveal_window_at_commit_end by blast
next
  assume "unat (Global_round e) = unat (COMMIT_END (globals s)) + unat (UNLOCK_SLACK (globals s))"
  then show v: "reveal_for A e cid bid salt hy att s = Inl PhaseViolation"
    by (rule reveal_for_at_window_end)
  then show "ledger_step A (e, NoOp, Some (Reveal_for cid bid salt hy att)) s = None"
    using method_Inl_ledger_step[of A e "Reveal_for cid bid salt hy att" s PhaseViolation] by simp
qed

theorem reveal_for_window_boundaries_witness:
  "attestation_ok example_avm (call_ctx (addr (CHR ''B'')) 100 [app_call_txn]) ''hy'' example_sig
     (globals (committed_state 5 50)) \<and>
   reveal_accepted example_avm (call_ctx (addr (CHR ''B'')) 100 [app_call_txn]) example_hash 3 ''salt''
     (committed_state 5 50) \<and>
   COMMIT_END (globals (committed_state 5 50)) = 100 \<and>
   UNLOCK_SLACK (globals (committed_state 5 50)) = 50 \<and>
   (\<exists>r. reveal_for example_avm (call_ctx (addr (CHR ''B'')) 100 [app_call_txn]) example_hash 3 ''salt''
      ''hy'' example_sig (committed_state 5 50) = Inr r) \<and>
   reveal_for example_avm (call_ctx (addr (CHR ''B'')) 150 [app_call_txn]) example_hash 3 ''salt''
      ''hy'' example_sig (committed_state 5 50) = Inl PhaseViolation"
proof -
  have h: "attestation_ok example_avm (call_ctx (addr (CHR ''B'')) 100 [app_call_txn]) ''hy'' example_sig
     (globals (committed_state 5 50)) \<and>
   reveal_accepted example_avm (call_ctx (addr (CHR ''B'')) 100 [app_call_txn]) example_hash 3 ''salt''
     (committed_state 5 50) \<and>
   COMMIT_END (globals (committed_state 5 50)) = 100 \<and>
   UNLOCK_SLACK (globals (committed_state 5 50)) = 50"
    by (simp add: eval_defs)
  have g: "Global_round (call_ctx (addr (CHR ''B'')) 100 [app_call_txn]) = 100"
    "unat (Global_round (call_ctx (addr (CHR ''B'')) 150 [app_call_txn])) = 150"
    by (simp_all add: call_ctx_def)
  have a: "\<exists>r. reveal_for example_avm (call_ctx (addr (CHR ''B'')) 100 [app_call_txn]) example_hash 3 ''salt''
      ''hy'' example_sig (committed_state 5 50) = Inr r"
    using reveal_for_window_boundaries[of example_avm "call_ctx (addr (CHR ''B'')) 100 [app_call_txn]"
        "''hy''" example_sig "committed_state 5 50" example_hash 3 "''salt''"] h g
    by simp
  have b: "reveal_for example_avm (call_ctx (addr (CHR ''B'')) 150 [app_call_txn]) example_hash 3 ''salt''
      ''hy'' example_sig (committed_state 5 50) = Inl PhaseViolation"
    using reveal_for_window_boundaries[of example_avm "call_ctx (addr (CHR ''B'')) 150 [app_call_txn]"
        "''hy''" example_sig "committed_state 5 50" example_hash 3 "''salt''"] h g
    by simp
  show ?thesis using h a b by blast
qed

text \<open>
  Claim C8 as stated admits every call at the clock \<open>commit_end\<close>. With an unlock slack
  of 0 the reveal window is empty: the call below is at the clock \<open>commit_end\<close>, meets
  every other precondition, and fails with \<open>PhaseViolation\<close>.
\<close>

theorem reveal_for_empty_window_counterexample:
  "Global_round (call_ctx (addr (CHR ''B'')) 100 [app_call_txn]) = COMMIT_END (globals (committed_state 5 0)) \<and>
   attestation_ok example_avm (call_ctx (addr (CHR ''B'')) 100 [app_call_txn]) ''hy'' example_sig
     (globals (committed_state 5 0)) \<and>
   reveal_accepted example_avm (call_ctx (addr (CHR ''B'')) 100 [app_call_txn]) example_hash 3 ''salt''
     (committed_state 5 0) \<and>
   reveal_for example_avm (call_ctx (addr (CHR ''B'')) 100 [app_call_txn]) example_hash 3 ''salt''
      ''hy'' example_sig (committed_state 5 0) = Inl PhaseViolation"
  by (simp add: eval_defs)

text \<open>
  Claim C2, amended. A successful \<^verbatim>\<open>reveal_for\<close> whose caller is not the bidder pays
  the caller \<open>remaining_bond * 70 div 100\<close> and leaves the bidder
  \<open>remaining_bond * 30 div 100\<close>. The two amounts add up to the remaining bond when it
  is a multiple of 10 and to one unit less otherwise: that unit goes to neither party.
\<close>

theorem third_party_bounty_split:
  assumes "reveal_for A e cid bid salt hy att s = Inr (s', outs)"
    and "boxes s cid = Some bidder" and "locals s bidder = Some l"
    and "Txn_sender e \<noteq> bidder"
  shows "outs = [InnerPayment (Txn_sender e) (REMAINING_BOND l * 70 div 100)] \<and>
         unat (REMAINING_BOND l * 70 div 100) = unat (REMAINING_BOND l) * 70 div 100 \<and>
         (\<exists>l'. locals s' bidder = Some l' \<and>
            unat (REMAINING_BOND l') = unat (REMAINING_BOND l) * 30 div 100 \<and>
            unat (REMAINING_BOND l * 70 div 100) + unat (REMAINING_BOND l') =
              (if unat (REMAINING_BOND l) mod 10 = 0 then unat (REMAINING_BOND l)
               else unat (REMAINING_BOND l) - 1))"
proof -
  from reveal_for_effect[OF assms(1)] assms(2,3) obtain l' where
    bp: "bounty_payout e bidder (l\<lparr>REVEALED := 1, BID := bid\<rparr>) = Inr (l', outs)"
    and loc: "locals s' = (locals s)(bidder \<mapsto> l')" by auto
  from bounty_payout_third_party[OF bp assms(4)] have
    o: "outs = [InnerPayment (Txn_sender e) (REMAINING_BOND l * 70 div 100)]"
    and l': "REMAINING_BOND l' = REMAINING_BOND l * 30 div 100"
    and u70: "unat (REMAINING_BOND l * 70 div 100) = unat (REMAINING_BOND l) * 70 div 100"
    and u30: "unat (REMAINING_BOND l * 30 div 100) = unat (REMAINING_BOND l) * 30 div 100"
    by auto
  have "locals s' bidder = Some l'" using loc by simp
  moreover have "unat (REMAINING_BOND l') = unat (REMAINING_BOND l) * 30 div 100"
    using l' u30 by simp
  moreover have "unat (REMAINING_BOND l * 70 div 100) + unat (REMAINING_BOND l') =
              (if unat (REMAINING_BOND l) mod 10 = 0 then unat (REMAINING_BOND l)
               else unat (REMAINING_BOND l) - 1)"
    using l' u30 u70 split_sum[of "unat (REMAINING_BOND l)"] by simp
  ultimately show ?thesis using o u70 by blast
qed

theorem third_party_bounty_split_witness:
  "Txn_sender (call_ctx (addr (CHR ''T'')) 120 [app_call_txn]) \<noteq> addr (CHR ''B'') \<and>
   boxes (committed_state 5 50) example_hash = Some (addr (CHR ''B'')) \<and>
   remaining_bond (committed_state 5 50) (addr (CHR ''B'')) = Some 5 \<and>
   snd (projr (reveal_for example_avm (call_ctx (addr (CHR ''T'')) 120 [app_call_txn]) example_hash 3
          ''salt'' ''hy'' example_sig (committed_state 5 50)))
     = [InnerPayment (addr (CHR ''T'')) (5 * 70 div 100)] \<and>
   remaining_bond
     (fst (projr (reveal_for example_avm (call_ctx (addr (CHR ''T'')) 120 [app_call_txn]) example_hash 3
          ''salt'' ''hy'' example_sig (committed_state 5 50)))) (addr (CHR ''B'')) = Some 1"
proof -
  let ?e = "call_ctx (addr (CHR ''T'')) 120 [app_call_txn]"
  let ?r = "reveal_for example_avm ?e example_hash 3 ''salt'' ''hy'' example_sig (committed_state 5 50)"
  have h1: "?r = Inr (fst (projr ?r), snd (projr ?r))" by (simp add: eval_defs)
  have h2: "boxes (committed_state 5 50) example_hash = Some (addr (CHR ''B''))"
    by (simp add: eval_defs)
  have h3: "locals (committed_state 5 50) (addr (CHR ''B''))
              = Some (the (locals (committed_state 5 50) (addr (CHR ''B''))))"
    by (simp add: eval_defs)
  have h4: "Txn_sender ?e \<noteq> addr (CHR ''B'')" by (simp add: call_ctx_def)
  have rb: "REMAINING_BOND (the (locals (committed_state 5 50) (addr (CHR ''B'')))) = 5"
    by (simp add: eval_defs)
  have rb': "remaining_bond (committed_state 5 50) (addr (CHR ''B'')) = Some 5"
    by (simp add: eval_defs)
  from third_party_bounty_split[OF h1 h2 h3 h4] rb obtain l' where
    o: "snd (projr ?r) = [InnerPayment (Txn_sender ?e) (5 * 70 div 100)]"
    and l: "locals (fst (projr ?r)) (addr (CHR ''B'')) = Some l'"
    and u: "unat (REMAINING_BOND l') = 5 * 30 div 100"
    by auto
  have "unat (REMAINING_BOND l') = unat (1 :: uint64)" using u by simp
  then have "REMAINING_BOND l' = 1" by (simp only: word_unat_eq_iff)
  then have "remaining_bond (fst (projr ?r)) (addr (CHR ''B'')) = Some 1"
    using l by (simp add: remaining_bond_def)
  moreover have "Txn_sender ?e = addr (CHR ''T'')" by (simp add: call_ctx_def)
  ultimately show ?thesis using h4 h2 rb' o by simp
qed

text \<open>
  Claim C2 as stated has the bidder keep the unit lost to rounding. With a bond of 5 the
  third party is paid 3 and the bidder is left with 1.
\<close>

theorem third_party_bounty_loses_unit_counterexample:
  "remaining_bond (committed_state 5 50) (addr (CHR ''B'')) = Some 5 \<and>
   map_option snd (ledger_step example_avm
       (tx_reveal (addr (CHR ''T'')) 120 example_hash 3 ''salt'') (committed_state 5 50))
     = Some [InnerPayment (addr (CHR ''T'')) 3] \<and>
   remaining_bond
     (fst (reached example_avm
        (committed_run 5 50 @ [tx_reveal (addr (CHR ''T'')) 120 example_hash 3 ''salt''])))
     (addr (CHR ''B'')) = Some 1"
  by (simp add: eval_defs)

text \<open>
  Claim C3, amended. A \<^verbatim>\<open>commit\<close> whose hash is already in the commitment index is not
  rejected for that: when its other preconditions hold and the entry has the length of the
  caller's address (as every entry that \<^verbatim>\<open>commit\<close> wrote has), it succeeds and the
  entry is overwritten with the caller.
\<close>


theorem commit_overwrites_index:
  assumes "boxes s h = Some owner" and "length owner = length (Txn_sender e)"
    and "Global_round e < COMMIT_END (globals s)" and "length (Gtxn e) = 2"
    and "type_enum (Gtxn e ! 0) = Payment"
    and "receiver (Gtxn e ! 0) = Global_current_application_address e"
    and "amount (Gtxn e ! 0) = BOND (globals s)"
    and "locals s (Txn_sender e) = Some l" and "BONDED l = 0"
  shows "\<exists>s'. commit e h c_cid anon_key s = Inr (s', []) \<and>
           ledger_step A (e, NoOp, Some (Commit h c_cid anon_key)) s =
             (if Txn_application_id e = 0 then None else Some (s', [])) \<and>
           boxes s' = (boxes s)(h \<mapsto> Txn_sender e)"
  using assms
  by (simp add: commit_def monad_defs box_put_def ledger_step_def approval_program_def
      method_config_def admits_def)

theorem commit_overwrites_index_witness:
  "boxes (fst (reached example_avm (committed_run 5 50 @ [tx_opt_in (addr (CHR ''M'')) 35])))
     example_hash = Some (addr (CHR ''B'')) \<and>
   (\<exists>s'. commit (call_ctx (addr (CHR ''M'')) 40 [pay_txn (addr (CHR ''E'')) 5, app_call_txn])
            example_hash ''cid'' (addr (CHR ''K''))
            (fst (reached example_avm (committed_run 5 50 @ [tx_opt_in (addr (CHR ''M'')) 35])))
          = Inr (s', []) \<and>
          boxes s' example_hash = Some (addr (CHR ''M'')))"
proof -
  let ?s = "fst (reached example_avm (committed_run 5 50 @ [tx_opt_in (addr (CHR ''M'')) 35]))"
  let ?e = "call_ctx (addr (CHR ''M'')) 40 [pay_txn (addr (CHR ''E'')) 5, app_call_txn]"
  have h1: "boxes ?s example_hash = Some (addr (CHR ''B''))" by (simp add: eval_defs)
  have h2: "length (addr (CHR ''B'')) = length (Txn_sender ?e)" by (simp add: call_ctx_def)
  have h3: "Global_round ?e < COMMIT_END (globals ?s)" by (simp add: eval_defs)
  have h4: "length (Gtxn ?e) = 2" by (simp add: call_ctx_def)
  have h5: "type_enum (Gtxn ?e ! 0) = Payment" by (simp add: call_ctx_def pay_txn_def)
  have h6: "receiver (Gtxn ?e ! 0) = Global_current_application_address ?e"
    by (simp add: call_ctx_def pay_txn_def)
  have h7: "amount (Gtxn ?e ! 0) = BOND (globals ?s)" by (simp add: eval_defs)
  have h8: "locals ?s (Txn_sender ?e) = Some fresh_local" by (simp add: eval_defs)
  have h9: "BONDED fresh_local = 0" by (simp add: fresh_local_def)
  have s: "Txn_sender ?e = addr (CHR ''M'')" by (simp add: call_ctx_def)
  from commit_overwrites_index[OF h1 h2 h3 h4 h5 h6 h7 h8 h9, of "''cid''" "addr (CHR ''K'')" example_avm]
  obtain s' where "commit ?e example_hash ''cid'' (addr (CHR ''K'')) ?s = Inr (s', [])"
    and "boxes s' = (boxes ?s)(example_hash \<mapsto> Txn_sender ?e)" by blast
  then have "commit ?e example_hash ''cid'' (addr (CHR ''K'')) ?s = Inr (s', []) \<and>
          boxes s' example_hash = Some (addr (CHR ''M''))" using s by simp
  then show ?thesis using h1 by blast
qed

text \<open>
  Claim C3 as stated rejects a commit with a hash that is present. Below, \<open>M\<close> commits
  with the hash that \<open>B\<close> committed: the transaction succeeds and the index gives
  \<open>M\<close> for the hash.
\<close>

theorem commit_duplicate_hash_counterexample:
  "boxes (committed_state 5 50) example_hash = Some (addr (CHR ''B'')) \<and>
   ledger_step example_avm (tx_commit (addr (CHR ''M'')) 40 5 example_hash (addr (CHR ''K'')))
     (fst (reached example_avm (committed_run 5 50 @ [tx_opt_in (addr (CHR ''M'')) 35]))) \<noteq> None \<and>
   boxes (fst (reached example_avm
            (committed_run 5 50 @ [tx_opt_in (addr (CHR ''M'')) 35,
                                   tx_commit (addr (CHR ''M'')) 40 5 example_hash (addr (CHR ''K''))])))
     example_hash = Some (addr (CHR ''M''))"
  by (simp add: eval_defs)

text \<open>
  Claim C4 fails on the code: \<^verbatim>\<open>create\<close> has no guard on the state. On the settled
  auction of the seller \<open>S\<close> with the winner \<open>B\<close>, the account \<open>M\<close>
  calls \<^verbatim>\<open>create\<close>; the call succeeds, \<open>M\<close> is the seller, and the leaderboard
  and the settled flag are reset.
\<close>


theorem create_again_replaces_seller:
  "SELLER (globals settled_state) = Some (addr (CHR ''S'')) \<and>
   SETTLED (globals settled_state) = 1 \<and>
   WINNER (globals settled_state) = Some (addr (CHR ''B'')) \<and>
   WIN_BID (globals settled_state) = 3 \<and>
   ledger_step example_avm
     (tx_create (addr (CHR ''M'')) 160 ((example_args 9 2 0)\<lparr>arg_commit_end := 1000\<rparr>))
     settled_state \<noteq> None \<and>
   SELLER (globals (fst (run example_avm
     [tx_create (addr (CHR ''M'')) 160 ((example_args 9 2 0)\<lparr>arg_commit_end := 1000\<rparr>)]
     (settled_state, no_bonds)))) = Some (addr (CHR ''M'')) \<and>
   SETTLED (globals (fst (run example_avm
     [tx_create (addr (CHR ''M'')) 160 ((example_args 9 2 0)\<lparr>arg_commit_end := 1000\<rparr>)]
     (settled_state, no_bonds)))) = 0 \<and>
   WINNER (globals (fst (run example_avm
     [tx_create (addr (CHR ''M'')) 160 ((example_args 9 2 0)\<lparr>arg_commit_end := 1000\<rparr>)]
     (settled_state, no_bonds)))) = Some [] \<and>
   WIN_BID (globals (fst (run example_avm
     [tx_create (addr (CHR ''M'')) 160 ((example_args 9 2 0)\<lparr>arg_commit_end := 1000\<rparr>)]
     (settled_state, no_bonds)))) = 0"
  by (simp add: eval_defs)

text \<open>
  Claim C1, amended. In every state that a run of application calls reaches from the
  deployment and for every account with a bonded record, the remaining bond and the
  payments made out of the bond since the account's commit add up to the amount posted at
  that commit, or to one unit less; they can be one unit short only once the bid is
  revealed (the bounty of a third-party reveal rounds both shares down).
\<close>


theorem bond_accounted_always: "bond_accounted (reached A ts) b"
  unfolding reached_def by (rule run_accounted) (simp add: bond_accounted_def deployed_def)

theorem bond_accounted_always_witness:
  "map_option BONDED
     (locals (fst (reached example_avm
        (committed_run 15 50 @ [tx_reveal (addr (CHR ''T'')) 120 example_hash 3 ''salt''])))
      (addr (CHR ''B''))) = Some 1 \<and>
   bond_accounted
     (reached example_avm
        (committed_run 15 50 @ [tx_reveal (addr (CHR ''T'')) 120 example_hash 3 ''salt'']))
     (addr (CHR ''B''))"
  using bond_accounted_always[of example_avm
      "committed_run 15 50 @ [tx_reveal (addr (CHR ''T'')) 120 example_hash 3 ''salt'']"
      "addr (CHR ''B'')"]
  by (simp add: eval_defs)

text \<open>
  Claim C1 as stated has the sum equal to the bond. With a bond of 15, after a third party
  revealed the bid, 10 were paid out and 4 remain.
\<close>

theorem bond_not_conserved_counterexample:
  "posted (snd (reached example_avm
      (committed_run 15 50 @ [tx_reveal (addr (CHR ''T'')) 120 example_hash 3 ''salt''])))
     (addr (CHR ''B'')) = 15 \<and>
   paid_out (snd (reached example_avm
      (committed_run 15 50 @ [tx_reveal (addr (CHR ''T'')) 120 example_hash 3 ''salt''])))
     (addr (CHR ''B'')) = 10 \<and>
   remaining_bond (fst (reached example_avm
      (committed_run 15 50 @ [tx_reveal (addr (CHR ''T'')) 120 example_hash 3 ''salt''])))
     (addr (CHR ''B'')) = Some 4 \<and>
   \<not> bond_conserved
     (reached example_avm
        (committed_run 15 50 @ [tx_reveal (addr (CHR ''T'')) 120 example_hash 3 ''salt'']))
     (addr (CHR ''B''))"
  by (simp add: eval_defs bond_conserved_def)

end
